theory Spec2Isabelle
  imports Complex_Main "HOL-Library.Word"
begin

section \<open>JavaScript strings\<close>

text \<open>
  Strings are \<open>char list\<close>; one \<open>char\<close> stands for one UTF-16 code unit below 256.
  \<open>String.prototype.trim\<close> removes white space and line terminators from both ends;
  in this range these are TAB, LF, VT, FF, CR, SPACE and NBSP.
\<close>

definition is_space :: "char \<Rightarrow> bool" where
  "is_space c \<longleftrightarrow> c \<in> set [CHR 0x09, CHR 0x0A, CHR 0x0B, CHR 0x0C, CHR 0x0D, CHR 0x20, CHR 0xA0]"

definition trim :: "string \<Rightarrow> string" where
  "trim s = rev (dropWhile is_space (rev (dropWhile is_space s)))"

text \<open>\<open>indexOf\<close> and \<open>lastIndexOf\<close> of a one-character needle; JavaScript's \<open>-1\<close> is \<open>None\<close>.\<close>

fun indexOf :: "string \<Rightarrow> char \<Rightarrow> nat option" where
  "indexOf [] c = None"
| "indexOf (x # xs) c = (if x = c then Some 0 else map_option Suc (indexOf xs c))"

definition lastIndexOf :: "string \<Rightarrow> char \<Rightarrow> nat option" where
  "lastIndexOf s c = map_option (\<lambda>k. length s - 1 - k) (indexOf (rev s) c)"

text \<open>
  \<open>s.substring(a, b)\<close>: both indices are clamped to the length and swapped when
  \<open>a > b\<close>.
\<close>

definition substring :: "string \<Rightarrow> nat \<Rightarrow> nat \<Rightarrow> string" where
  "substring s a b =
     (let a' = min a (length s); b' = min b (length s);
          lo = min a' b'; hi = max a' b'
      in take (hi - lo) (drop lo s))"

text \<open>
  The \<open>i\<close> flag of a regular expression without the \<open>u\<close> flag compares upper-cased code
  units and never lets a code unit of 128 or more match an ASCII one, so an ASCII letter of
  the pattern matches exactly its two cases.
\<close>

definition lower_ascii :: "char \<Rightarrow> char" where
  "lower_ascii c =
     (if (65::nat) \<le> of_char c \<and> of_char c \<le> (90::nat)
      then char_of (of_char c + (32::nat)) else c)"

definition starts_with_ci :: "string \<Rightarrow> string \<Rightarrow> bool" where
  "starts_with_ci p s \<longleftrightarrow>
     length p \<le> length s \<and> map lower_ascii (take (length p) s) = map lower_ascii p"

text \<open>The decimal digits, \<^verbatim>\<open>\d\<close> in a pattern.\<close>

definition is_digit :: "char \<Rightarrow> bool" where
  "is_digit c \<longleftrightarrow> (48::nat) \<le> of_char c \<and> of_char c \<le> (57::nat)"

section \<open>cleanGeminiJSON\<close>

text \<open>
  \<^verbatim>\<open>cleaned.replace(/^```json/i, "")\<close>, \<^verbatim>\<open>.replace(/^```/, "")\<close> and
  \<^verbatim>\<open>cleaned.replace(/```$/, "")\<close>: without the \<open>m\<close> flag the anchors are the two
  ends of the string.
\<close>

definition strip_fence_json :: "string \<Rightarrow> string" where
  "strip_fence_json s = (if starts_with_ci ''```json'' s then drop 7 s else s)"

definition strip_fence_open :: "string \<Rightarrow> string" where
  "strip_fence_open s = (if take 3 s = ''```'' then drop 3 s else s)"

definition strip_fence_close :: "string \<Rightarrow> string" where
  "strip_fence_close s =
     (if 3 \<le> length s \<and> drop (length s - 3) s = ''```'' then take (length s - 3) s else s)"

text \<open>Lines 41 to 45: cut to the braces when both are found.\<close>

definition curly_slice :: "string \<Rightarrow> string" where
  "curly_slice cleaned =
     (case (indexOf cleaned CHR ''{'', lastIndexOf cleaned CHR ''}'') of
        (Some firstCurly, Some lastCurly) \<Rightarrow> substring cleaned firstCurly (lastCurly + 1)
      | _ \<Rightarrow> cleaned)"

definition cleanGeminiJSON :: "string \<Rightarrow> string" where
  "cleanGeminiJSON text =
     (if text = [] then ''{}''
      else let cleaned = trim text;
               cleaned = strip_fence_open (strip_fence_json cleaned);
               cleaned = strip_fence_close cleaned;
               cleaned = curly_slice cleaned
           in trim cleaned)"

text \<open>A response wrapped in a Markdown fence: the opening fence line, the text, the closing fence line.\<close>

definition fenced :: "string \<Rightarrow> string" where
  "fenced u = ''```json'' @ [CHR 0x0A] @ u @ [CHR 0x0A] @ ''```''"


text \<open>
  Proof devices for the cleaner: a text without curly braces, a text that is another one
  between two brace-free affixes, and the text left when the trimming and the three fence
  replacements are done.
\<close>

definition nobrace :: "string \<Rightarrow> bool" where
  "nobrace p \<longleftrightarrow> CHR ''{'' \<notin> set p \<and> CHR ''}'' \<notin> set p"

definition wraps :: "string \<Rightarrow> string \<Rightarrow> bool" where
  "wraps s t \<longleftrightarrow> (\<exists>p q. s = p @ t @ q \<and> nobrace p \<and> nobrace q)"

definition fence_body :: "string \<Rightarrow> string" where
  "fence_body s = strip_fence_close (strip_fence_open (strip_fence_json (trim s)))"

section \<open>getNews\<close>

text \<open>
  What \<open>JSON.parse\<close> returns. An object is the list of its own properties, each key once.
  Numbers are never inspected by the code.
\<close>

datatype json =
    JNull
  | JBool bool
  | JNumber rat
  | JString string
  | JArray "json list"
  | JObject "(string \<times> json) list"

datatype error =
    BackendError string
  | InvalidJSON string
  | TypeError string
  | EmptyNews
  | URIError
  | HttpError string
  | ImageError string
  | ProbeError string
  | FfmpegError string
  | MissingPath
  | NoVideos
  | FsError string

text \<open>
  \<open>res?.response?.text ? res.response.text().trim() : ""\<close>: the response either has no
  \<open>text\<close> function, or calling it throws, or it returns the text.
\<close>

datatype response = NoText | TextThrows error | Text string

text \<open>
  The two collaborators of the fetcher: the generative backend, asked by model name (the
  prompt is fixed by the date), and the built-in \<open>JSON.parse\<close>, \<open>None\<close> when it throws.
\<close>

record gemini_env =
  generateContent :: "string \<Rightarrow> error + response"
  JSON_parse :: "string \<Rightarrow> json option"

record digest =
  India :: json
  World :: json

definition empty_digest :: digest where
  "empty_digest = \<lparr>India = JArray [], World = JArray []\<rparr>"

definition models :: "string list" where
  "models = [''gemini-1.5-flash'', ''gemini-1.5-pro'', ''gemini-pro'',
             ''gemini-2.5-flash'', ''gemini-2.5-pro'']"

text \<open>
  Reading property \<open>k\<close> of a parsed value that is not \<open>null\<close>: an own property of an
  object, \<open>undefined\<close> (here \<open>None\<close>) otherwise. Reading a property of \<open>null\<close> throws
  and is handled by the caller.
\<close>

fun get_prop :: "json \<Rightarrow> string \<Rightarrow> json option" where
  "get_prop (JObject kvs) k = map_of kvs k"
| "get_prop _ k = None"

text \<open>\<open>Array.isArray(v) ? v : []\<close>\<close>

fun array_or_empty :: "json option \<Rightarrow> json" where
  "array_or_empty (Some (JArray xs)) = JArray xs"
| "array_or_empty _ = JArray []"

fun array_length :: "json \<Rightarrow> nat" where
  "array_length (JArray xs) = length xs"
| "array_length _ = 0"

definition response_text :: "response \<Rightarrow> error + string" where
  "response_text r =
     (case r of NoText \<Rightarrow> Inr [] | TextThrows e \<Rightarrow> Inl e | Text t \<Rightarrow> Inr (trim t))"

text \<open>
  One pass through the body of the \<open>try\<close> of the retry loop (lines 166 to 201): \<open>Inr\<close> is
  the \<open>return safeParsed\<close>, \<open>Inl\<close> any exception that reaches \<open>catch (err)\<close>.
\<close>

definition attempt :: "gemini_env \<Rightarrow> string \<Rightarrow> error + digest" where
  "attempt env modelName =
     (case generateContent env modelName of
        Inl e \<Rightarrow> Inl e
      | Inr res \<Rightarrow>
          (case response_text res of
             Inl e \<Rightarrow> Inl e
           | Inr text \<Rightarrow>
               (case JSON_parse env (cleanGeminiJSON text) of
                  None \<Rightarrow> Inl (InvalidJSON (take 200 text))
                | Some parsed \<Rightarrow>
                    if parsed = JNull then Inl (TypeError ''Cannot read properties of null'')
                    else
                      let safeParsed =
                            \<lparr>India = array_or_empty (get_prop parsed ''India''),
                             World = array_or_empty (get_prop parsed ''World'')\<rparr>
                      in if array_length (India safeParsed) > 0
                            \<or> array_length (World safeParsed) > 0
                         then Inr safeParsed
                         else Inl EmptyNews)))"

text \<open>
  The loop over \<open>models\<close>. The second component lists the model names asked, in the
  order of the requests.
\<close>

fun try_models :: "gemini_env \<Rightarrow> string list \<Rightarrow> string list \<Rightarrow> digest \<times> string list" where
  "try_models env [] asked = (empty_digest, asked)"
| "try_models env (modelName # rest) asked =
     (case attempt env modelName of
        Inr safeParsed \<Rightarrow> (safeParsed, asked @ [modelName])
      | Inl err \<Rightarrow> try_models env rest (asked @ [modelName]))"

definition getNews :: "gemini_env \<Rightarrow> string \<Rightarrow> digest \<times> string list" where
  "getNews env GEMINI_KEY =
     (if GEMINI_KEY = [] then (empty_digest, []) else try_models env models [])"


section \<open>encodeURIComponent\<close>

text \<open>
  Titles and descriptions come out of \<open>JSON.parse\<close> and are arbitrary sequences of UTF-16
  code units. \<open>encodeURIComponent\<close> keeps the unreserved ASCII characters, writes every
  other code point as the percent-escaped bytes of its UTF-8 form, and throws \<open>URIError\<close>
  on a surrogate that is not part of a pair.
\<close>

type_synonym jsstring = "16 word list"

definition unreserved :: "nat \<Rightarrow> bool" where
  "unreserved n \<longleftrightarrow>
     (65 \<le> n \<and> n \<le> 90) \<or> (97 \<le> n \<and> n \<le> 122) \<or> (48 \<le> n \<and> n \<le> 57)
     \<or> n \<in> set [45, 95, 46, 33, 126, 42, 39, 40, 41]"

definition hex_digit :: "nat \<Rightarrow> char" where
  "hex_digit n = ''0123456789ABCDEF'' ! (n mod 16)"

definition pct :: "nat \<Rightarrow> string" where
  "pct b = [CHR ''%'', hex_digit (b div 16), hex_digit b]"

definition utf8 :: "nat \<Rightarrow> nat list" where
  "utf8 cp =
     (if cp < 0x80 then [cp]
      else if cp < 0x800 then [0xC0 + cp div 64, 0x80 + cp mod 64]
      else if cp < 0x10000 then [0xE0 + cp div 4096, 0x80 + (cp div 64) mod 64, 0x80 + cp mod 64]
      else [0xF0 + cp div 262144, 0x80 + (cp div 4096) mod 64,
            0x80 + (cp div 64) mod 64, 0x80 + cp mod 64])"

definition escape_cp :: "nat \<Rightarrow> string" where
  "escape_cp cp = (if unreserved cp then [char_of cp] else concat (map pct (utf8 cp)))"

definition is_lead :: "16 word \<Rightarrow> bool" where
  "is_lead c \<longleftrightarrow> 0xD800 \<le> unat c \<and> unat c \<le> 0xDBFF"

definition is_trail :: "16 word \<Rightarrow> bool" where
  "is_trail c \<longleftrightarrow> 0xDC00 \<le> unat c \<and> unat c \<le> 0xDFFF"

fun encodeURIComponent :: "jsstring \<Rightarrow> error + string" where
  "encodeURIComponent [] = Inr []"
| "encodeURIComponent [c] =
     (if is_lead c \<or> is_trail c then Inl URIError else Inr (escape_cp (unat c)))"
| "encodeURIComponent (c # d # ds) =
     (if is_trail c then Inl URIError
      else if is_lead c then
        (if is_trail d then
           (case encodeURIComponent ds of
              Inl e \<Rightarrow> Inl e
            | Inr r \<Rightarrow>
                Inr (escape_cp (0x10000 + (unat c - 0xD800) * 0x400 + (unat d - 0xDC00)) @ r))
         else Inl URIError)
      else (case encodeURIComponent (d # ds) of
              Inl e \<Rightarrow> Inl e
            | Inr r \<Rightarrow> Inr (escape_cp (unat c) @ r)))"

text \<open>A string in which every surrogate is half of a pair.\<close>

fun well_formed :: "jsstring \<Rightarrow> bool" where
  "well_formed [] = True"
| "well_formed [c] = (\<not> is_lead c \<and> \<not> is_trail c)"
| "well_formed (c # d # ds) =
     (if is_trail c then False
      else if is_lead c then is_trail d \<and> well_formed ds
      else well_formed (d # ds))"

section \<open>fetchImage\<close>

text \<open>
  One \<open>li.ld\<close> element of the results page, as the loop reads it: its \<open>data\<close> attribute,
  the \<open>aria-label\<close> of its \<open>a.img\<close>, and the \<open>data-src\<close> and \<open>src\<close> of its \<open>img\<close>.
  A missing attribute is \<open>undefined\<close>, here \<open>None\<close>.
\<close>

record li =
  li_data :: "string option"
  li_aria_label :: "string option"
  li_img_data_src :: "string option"
  li_img_src :: "string option"

text \<open>\<open>a || b\<close> on strings that may be \<open>undefined\<close>: \<open>undefined\<close> and \<open>""\<close> are falsy.\<close>

fun truthy_str :: "string option \<Rightarrow> bool" where
  "truthy_str (Some (x # xs)) = True"
| "truthy_str _ = False"

definition or_else :: "string option \<Rightarrow> string option \<Rightarrow> string option" where
  "or_else a b = (if truthy_str a then a else b)"

fun or_empty :: "string option \<Rightarrow> string" where
  "or_empty (Some s) = s"
| "or_empty None = []"

text \<open>
  \<open>toLowerCase\<close> on code units below 256: the ASCII capitals and the Latin-1 capitals
  (192 to 222 without the multiplication sign 215) move up by 32.
\<close>

definition to_lower :: "char \<Rightarrow> char" where
  "to_lower c =
     (let n = (of_char c :: nat)
      in if (65 \<le> n \<and> n \<le> 90) \<or> (192 \<le> n \<and> n \<le> 222 \<and> n \<noteq> 215)
         then char_of (n + 32) else c)"

definition toLowerCase :: "string \<Rightarrow> string" where
  "toLowerCase s = map to_lower s"

fun str_includes :: "string \<Rightarrow> string \<Rightarrow> bool" where
  "str_includes [] needle = (needle = [])"
| "str_includes (x # xs) needle = (take (length needle) (x # xs) = needle \<or> str_includes xs needle)"

text \<open>\<open>imgSrc.split("?")[0]\<close>\<close>

definition split_first :: "char \<Rightarrow> string \<Rightarrow> string" where
  "split_first sep s = takeWhile (\<lambda>c. c \<noteq> sep) s"

definition img_src_of :: "li \<Rightarrow> string option" where
  "img_src_of el = or_else (li_img_data_src el) (li_img_src el)"

definition flagged :: "li \<Rightarrow> bool" where
  "flagged el = str_includes (toLowerCase (or_empty (li_data el))) ''youtube''"

text \<open>
  The claim's wording of the flag, to compare with \<open>flagged\<close>: some part of the text is
  the word, whatever the case of its ASCII letters.
\<close>

definition contains_ci :: "string \<Rightarrow> string \<Rightarrow> bool" where
  "contains_ci s w \<longleftrightarrow>
     (\<exists>i\<in>set [0..<Suc (length s)].
        map lower_ascii (take (length w) (drop i s)) = map lower_ascii w)"

text \<open>
  The callback of \<open>$("li.ld").each\<close> (lines 269 to 289), with \<open>firstValidImage\<close> as the
  state: \<open>None\<close> is \<open>null\<close>, \<open>Some (ariaLabel, cleanUrl)\<close> the object.
\<close>

definition each_li :: "(string \<times> string) option \<Rightarrow> li \<Rightarrow> (string \<times> string) option" where
  "each_li firstValidImage el =
     (if firstValidImage \<noteq> None then firstValidImage
      else
        let ariaLabel = or_empty (li_aria_label el);
            imgSrc = img_src_of el
        in if \<not> truthy_str imgSrc then firstValidImage
           else if flagged el then firstValidImage
           else Some (ariaLabel, split_first CHR ''?'' (or_empty imgSrc)))"

definition select_image :: "li list \<Rightarrow> (string \<times> string) option" where
  "select_image entries = foldl each_li None entries"

text \<open>The two properties the selection is about, and what is kept of the chosen entry.\<close>

definition eligible :: "li \<Rightarrow> bool" where
  "eligible el \<longleftrightarrow> truthy_str (img_src_of el) \<and> \<not> flagged el"

definition chosen :: "li \<Rightarrow> string \<times> string" where
  "chosen el = (or_empty (li_aria_label el), split_first CHR ''?'' (or_empty (img_src_of el)))"


section \<open>The outside world\<close>

text \<open>
  A JavaScript number as far as the code looks at it: a finite value (every finite double
  is a rational), \<open>NaN\<close>, or an infinity.
\<close>

datatype js_number = Fin rat | NaN | PosInf | NegInf

text \<open>
  A field of the probe's answer as \<open>fluent-ffmpeg\<close> hands it over: a number when ffprobe
  printed digits with an optional fraction, the printed text otherwise (\<open>N/A\<close> for a
  duration it does not know). A field that is absent is \<open>undefined\<close>, here \<open>None\<close>.
\<close>

datatype js_value = JsNumber js_number | JsString string

record stream =
  st_width :: "nat option"
  st_height :: "nat option"

record metadata =
  format_duration :: "js_value option"
  streams :: "stream list"

text \<open>
  An ffmpeg invocation as \<open>fluent-ffmpeg\<close> is told to build it: the inputs in order, the
  complex filter, the output options, the file to save. The \<open>-t\<close> option carries its
  number.
\<close>

datatype filter_graph =
    Overlay string string
  | ReelFilter string jsstring string jsstring
  | Concat nat nat nat

datatype out_option = Opt string | Trim js_number

record ffmpeg_cmd =
  cmd_inputs :: "string list"
  cmd_filter :: filter_graph
  cmd_options :: "out_option list"
  cmd_output :: string

record tts_request =
  tts_input :: string
  tts_voice :: string
  tts_timeout :: nat

datatype event =
    GetAudio tts_request
  | GetPage string
  | GetImage string
  | RunFfmpeg ffmpeg_cmd
  | Warn "string list"

type_synonym filemap = "string \<rightharpoonup> string"

text \<open>
  The collaborators: the synthesis endpoint, the search page (already parsed into its
  \<open>li.ld\<close> elements), the image download, \<open>sharp\<close>'s resize to a PNG on a 970 by 950
  canvas, and the video tools, which read the files present when they run. Each answers
  with an error or a value. \<open>literal_value\<close> is the number that a numeric literal denotes
  (the nearest double, or an infinity), as the conversion of a string to a number takes it.
\<close>

record env =
  cwd :: string
  axios_get_audio :: "tts_request \<Rightarrow> error + string"
  axios_get_page :: "string \<Rightarrow> error + li list"
  axios_get_image :: "string \<Rightarrow> error + string"
  sharp_png :: "string \<Rightarrow> error + string"
  ffprobe :: "filemap \<Rightarrow> string \<Rightarrow> error + metadata"
  ffmpeg_run :: "filemap \<Rightarrow> ffmpeg_cmd \<Rightarrow> error + string"
  ffprobe_streams :: "filemap \<Rightarrow> string \<Rightarrow> error + string list"
  literal_value :: "string \<Rightarrow> js_number"

text \<open>
  The state the pipeline changes: the regular files with their contents, the directories
  with their entries in \<open>readdirSync\<close> order, and the requests and runs made so far.
\<close>

record world =
  files :: filemap
  dirs :: "string \<rightharpoonup> string list"
  events :: "event list"

definition existsSync :: "world \<Rightarrow> string \<Rightarrow> bool" where
  "existsSync w p \<longleftrightarrow> files w p \<noteq> None \<or> dirs w p \<noteq> None"

text \<open>\<open>path.join\<close> of a normalised directory and a relative path below it.\<close>

definition path_join :: "string \<Rightarrow> string \<Rightarrow> string" where
  "path_join a b = a @ ''/'' @ b"

definition search_url :: string where
  "search_url = ''https://in.images.search.yahoo.com/search/images?p=''"

text \<open>
  Lines 254 to 313. The URL is built before the \<open>try\<close>, so an exception of
  \<open>encodeURIComponent\<close> leaves the function; everything after it is inside the \<open>try\<close>,
  whose \<open>catch\<close> only logs. \<open>toFile\<close> writes the file when the resize succeeds.
\<close>

definition fetchImage :: "env \<Rightarrow> jsstring \<Rightarrow> string \<Rightarrow> world \<Rightarrow> (error + string) \<times> world" where
  "fetchImage env query savePath w =
     (case encodeURIComponent query of
        Inl e \<Rightarrow> (Inl e, w)
      | Inr q \<Rightarrow>
          let url = search_url @ q;
              w1 = w\<lparr>events := events w @ [GetPage url]\<rparr>
          in (Inr savePath,
              case axios_get_page env url of
                Inl err \<Rightarrow> w1
              | Inr entries \<Rightarrow>
                  (case select_image entries of
                     None \<Rightarrow> w1
                   | Some (ariaLabel, cleanUrl) \<Rightarrow>
                       let w2 = w1\<lparr>events := events w1 @ [GetImage cleanUrl]\<rparr>
                       in (case axios_get_image env cleanUrl of
                             Inl err \<Rightarrow> w2
                           | Inr data \<Rightarrow>
                               (case sharp_png env data of
                                  Inl err \<Rightarrow> w2
                                | Inr png \<Rightarrow> w2\<lparr>files := (files w2)(savePath \<mapsto> png)\<rparr>)))))"

section \<open>fetchTTS\<close>

definition voice :: string where
  "voice = ''nova''"

text \<open>
  Lines 217 to 241. The request carries the encoded text, the voice and the timeout of
  \<open>60_000\<close> ms (the \<open>prompt\<close> parameter is the constant \<open>vibe\<close>); \<open>axios\<close> rejects on a
  transport error, on the timeout and on a status outside 2xx. The \<open>catch\<close> logs and
  throws the error again.
\<close>

definition fetchTTS :: "env \<Rightarrow> jsstring \<Rightarrow> string \<Rightarrow> world \<Rightarrow> (error + unit) \<times> world" where
  "fetchTTS env content folderPath w =
     (case encodeURIComponent content of
        Inl err \<Rightarrow> (Inl err, w)
      | Inr input \<Rightarrow>
          let req = \<lparr>tts_input = input, tts_voice = voice, tts_timeout = 60000\<rparr>;
              w1 = w\<lparr>events := events w @ [GetAudio req]\<rparr>
          in (case axios_get_audio env req of
                Inl err \<Rightarrow> (Inl err, w1)
              | Inr data \<Rightarrow> (Inr (), w1\<lparr>files := (files w1)(folderPath \<mapsto> data)\<rparr>)))"

section \<open>overlayImage and generateReel\<close>

definition run_ffmpeg :: "env \<Rightarrow> ffmpeg_cmd \<Rightarrow> world \<Rightarrow> (error + unit) \<times> world" where
  "run_ffmpeg env cmd w =
     (let w1 = w\<lparr>events := events w @ [RunFfmpeg cmd]\<rparr>
      in case ffmpeg_run env (files w) cmd of
           Inl err \<Rightarrow> (Inl err, w1)
         | Inr out \<Rightarrow> (Inr (), w1\<lparr>files := (files w1)(cmd_output cmd \<mapsto> out)\<rparr>))"

definition overlayImage :: "env \<Rightarrow> string \<Rightarrow> string \<Rightarrow> string \<Rightarrow> world \<Rightarrow> (error + unit) \<times> world" where
  "overlayImage env videoFile imageFile outputFile w =
     (if videoFile = [] \<or> imageFile = [] \<or> outputFile = [] then (Inl MissingPath, w)
      else run_ffmpeg env
             \<lparr>cmd_inputs = [videoFile, imageFile],
              cmd_filter = Overlay ''50'' ''50'',
              cmd_options = [Opt ''-pix_fmt yuv420p'', Opt ''-c:a copy''],
              cmd_output = outputFile\<rparr> w)"

text \<open>\<open>s.width && s.height\<close>: a missing value and \<open>0\<close> are falsy.\<close>

fun truthy_nat :: "nat option \<Rightarrow> bool" where
  "truthy_nat None = False"
| "truthy_nat (Some n) = (n \<noteq> 0)"

definition getVideoDimensions :: "env \<Rightarrow> string \<Rightarrow> world \<Rightarrow> error + stream" where
  "getVideoDimensions env videoFile w =
     (case ffprobe env (files w) videoFile of
        Inl err \<Rightarrow> Inl err
      | Inr metadata \<Rightarrow>
          (case find (\<lambda>s. truthy_nat (st_width s) \<and> truthy_nat (st_height s)) (streams metadata) of
             None \<Rightarrow> Inl (TypeError ''Cannot read properties of undefined'')
           | Some stream \<Rightarrow> Inr stream))"

text \<open>
  \<open>metadata.format.duration || 10\<close>: \<open>undefined\<close>, the numbers \<open>0\<close> and \<open>NaN\<close> and the
  empty string are falsy; every other number and every other string is truthy.
\<close>

fun truthy_value :: "js_value option \<Rightarrow> bool" where
  "truthy_value None = False"
| "truthy_value (Some (JsNumber (Fin r))) = (r \<noteq> 0)"
| "truthy_value (Some (JsNumber NaN)) = False"
| "truthy_value (Some (JsNumber PosInf)) = True"
| "truthy_value (Some (JsNumber NegInf)) = True"
| "truthy_value (Some (JsString s)) = (s \<noteq> [])"

fun or_default :: "js_value option \<Rightarrow> js_value \<Rightarrow> js_value" where
  "or_default None x = x"
| "or_default (Some v) x = (if truthy_value (Some v) then v else x)"

text \<open>
  The conversion of a string to a number, which \<open>Math.round\<close> applies to an argument that
  is a string: white space is trimmed; the empty text is \<open>0\<close>; a numeric literal (a
  signed decimal with optional fraction and exponent, a signed \<open>Infinity\<close>, or an
  unsigned literal with prefix \<open>0x\<close>, \<open>0o\<close> or \<open>0b\<close>) is its value; any other text is
  \<open>NaN\<close>.
\<close>

definition is_digits :: "string \<Rightarrow> bool" where
  "is_digits s \<longleftrightarrow> s \<noteq> [] \<and> list_all is_digit s"

definition strip_sign :: "string \<Rightarrow> string" where
  "strip_sign s =
     (case s of
        [] \<Rightarrow> []
      | c # cs \<Rightarrow> if c = CHR ''+'' \<or> c = CHR ''-'' then cs else s)"

definition is_mantissa :: "string \<Rightarrow> bool" where
  "is_mantissa m =
     (case dropWhile (\<lambda>c. c \<noteq> CHR ''.'') m of
        [] \<Rightarrow> is_digits m
      | dot # fraction \<Rightarrow>
          (let whole = takeWhile (\<lambda>c. c \<noteq> CHR ''.'') m
           in list_all is_digit whole \<and> list_all is_digit fraction
              \<and> (whole \<noteq> [] \<or> fraction \<noteq> [])))"

definition is_decimal_literal :: "string \<Rightarrow> bool" where
  "is_decimal_literal u =
     (u = ''Infinity'' \<or>
      (case dropWhile (\<lambda>c. c \<noteq> CHR ''e'' \<and> c \<noteq> CHR ''E'') u of
         [] \<Rightarrow> is_mantissa u
       | e # ex \<Rightarrow>
           is_mantissa (takeWhile (\<lambda>c. c \<noteq> CHR ''e'' \<and> c \<noteq> CHR ''E'') u)
           \<and> is_digits (strip_sign ex)))"

definition is_radix_literal :: "string \<Rightarrow> bool" where
  "is_radix_literal t =
     (case t of
        z # x # ds \<Rightarrow>
          z = CHR ''0'' \<and> ds \<noteq> [] \<and>
          ((x \<in> set ''xX'' \<and> list_all (\<lambda>c. c \<in> set ''0123456789abcdefABCDEF'') ds)
           \<or> (x \<in> set ''oO'' \<and> list_all (\<lambda>c. c \<in> set ''01234567'') ds)
           \<or> (x \<in> set ''bB'' \<and> list_all (\<lambda>c. c \<in> set ''01'') ds))
      | _ \<Rightarrow> False)"

definition is_numeric_literal :: "string \<Rightarrow> bool" where
  "is_numeric_literal t \<longleftrightarrow> is_decimal_literal (strip_sign t) \<or> is_radix_literal t"

definition Number_of_string :: "env \<Rightarrow> string \<Rightarrow> js_number" where
  "Number_of_string env s =
     (let t = trim s
      in if t = [] then Fin 0
         else if is_numeric_literal t then literal_value env t
         else NaN)"

fun ToNumber :: "env \<Rightarrow> js_value \<Rightarrow> js_number" where
  "ToNumber env (JsNumber n) = n"
| "ToNumber env (JsString s) = Number_of_string env s"

text \<open>\<open>Math.round\<close> of a number: the integer nearest to the value, a tie going up.\<close>

fun Math_round :: "js_number \<Rightarrow> js_number" where
  "Math_round (Fin r) = Fin (of_int (round r))"
| "Math_round n = n"

definition font_title :: "env \<Rightarrow> string" where
  "font_title env = path_join (cwd env) ''assests/font/Nirmala-UI.ttf''"

text \<open>Lines 379 to 423 and 435: everything up to the start of ffmpeg.\<close>

definition reel_command ::
  "env \<Rightarrow> string \<Rightarrow> string \<Rightarrow> string \<Rightarrow> jsstring \<Rightarrow> jsstring \<Rightarrow> string \<Rightarrow> world \<Rightarrow> error + ffmpeg_cmd" where
  "reel_command env imageFile videoFile audioFile titleText descText outputFile w =
     (case ffprobe env (files w) audioFile of
        Inl err \<Rightarrow> Inl err
      | Inr metadata \<Rightarrow>
          let duration = or_default (format_duration metadata) (JsNumber (Fin 10))
          in (case getVideoDimensions env videoFile w of
                Inl err \<Rightarrow> Inl err
              | Inr dims \<Rightarrow>
                  let fontTitleSafe =
                        (if existsSync w (font_title env) then font_title env
                         else ''/usr/share/fonts/truetype/dejavu/DejaVuSans-Bold.ttf'');
                      fontDescSafe =
                        (if existsSync w (font_title env) then font_title env
                         else ''/usr/share/fonts/truetype/dejavu/DejaVuSans.ttf'')
                  in Inr \<lparr>cmd_inputs = [videoFile, imageFile, audioFile],
                          cmd_filter = ReelFilter fontTitleSafe titleText fontDescSafe descText,
                          cmd_options =
                            [Opt ''-map [vid2]'', Opt ''-map 2:a?'', Opt ''-c:v libx264'',
                             Opt ''-crf 18'', Opt ''-preset medium'', Opt ''-c:a aac'',
                             Trim (Math_round (ToNumber env duration))],
                          cmd_output = outputFile\<rparr>))"

definition generateReel ::
  "env \<Rightarrow> string \<Rightarrow> string \<Rightarrow> string \<Rightarrow> jsstring \<Rightarrow> jsstring \<Rightarrow> string \<Rightarrow> world \<Rightarrow> (error + unit) \<times> world" where
  "generateReel env imageFile videoFile audioFile titleText descText outputFile w =
     (case reel_command env imageFile videoFile audioFile titleText descText outputFile w of
        Inl err \<Rightarrow> (Inl err, w)
      | Inr cmd \<Rightarrow> run_ffmpeg env cmd w)"


section \<open>generateTTS\<close>

text \<open>The decimal digits of a number, as a template literal prints \<open>item.id + 1\<close>.\<close>

fun dec :: "nat \<Rightarrow> string" where
  "dec n = (if n < 10 then [char_of (48 + n)] else dec (n div 10) @ [char_of (48 + n mod 10)])"

text \<open>
  \<open>prepareText\<close> (lines 322 to 337) on code units: \<open>split(" ")\<close>, the greedy filling of
  lines, \<open>trim\<close> with the white space of the full 16-bit range, and \<open>join("\n")\<close>.
\<close>

definition is_space16 :: "16 word \<Rightarrow> bool" where
  "is_space16 c \<longleftrightarrow>
     (let n = unat c
      in (9 \<le> n \<and> n \<le> 13) \<or> n = 32 \<or> n = 160 \<or> n = 5760 \<or> (8192 \<le> n \<and> n \<le> 8202)
         \<or> n = 8232 \<or> n = 8233 \<or> n = 8239 \<or> n = 8287 \<or> n = 12288 \<or> n = 65279)"

definition trim16 :: "jsstring \<Rightarrow> jsstring" where
  "trim16 s = rev (dropWhile is_space16 (rev (dropWhile is_space16 s)))"

fun split_on :: "'a \<Rightarrow> 'a list \<Rightarrow> 'a list list" where
  "split_on sep [] = [[]]"
| "split_on sep (x # xs) =
     (if x = sep then [] # split_on sep xs
      else (case split_on sep xs of
              [] \<Rightarrow> [[x]]
            | w # ws \<Rightarrow> (x # w) # ws))"

fun join_with :: "'a \<Rightarrow> 'a list list \<Rightarrow> 'a list" where
  "join_with sep [] = []"
| "join_with sep [l] = l"
| "join_with sep (l # ls) = l @ [sep] @ join_with sep ls"

definition add_word :: "nat \<Rightarrow> jsstring list \<times> jsstring \<Rightarrow> jsstring \<Rightarrow> jsstring list \<times> jsstring" where
  "add_word maxLineLength s word =
     (case s of (lines, line) \<Rightarrow>
        if length (line @ word) > maxLineLength then (lines @ [trim16 line], word @ [32])
        else (lines, line @ word @ [32]))"

definition prepareText :: "jsstring \<Rightarrow> nat \<Rightarrow> jsstring" where
  "prepareText text maxLineLength =
     (case foldl (add_word maxLineLength) ([], []) (split_on 32 text) of
        (lines, line) \<Rightarrow>
          join_with 10 (if line \<noteq> [] then lines @ [trim16 line] else lines))"

record item =
  item_id :: nat
  language :: string
  title :: jsstring
  description :: jsstring
  india :: bool

record audio_file =
  af_path :: string
  af_title :: jsstring
  af_desc :: jsstring

text \<open>
  \<open>fs\<close> is the default export of the module \<open>"fs"\<close> (line 5), the callback interface:
  its \<open>access(path[, mode], callback)\<close> validates the callback first and throws a
  \<open>TypeError\<close> (\<open>ERR_INVALID_ARG_TYPE\<close>) when none is given; with one, it returns
  \<open>undefined\<close> and reports the outcome to the callback later. Only \<open>fs.promises.access\<close>
  returns a promise that tells whether the path can be reached.
\<close>

datatype callback = Callback

definition fs_access :: "world \<Rightarrow> string \<Rightarrow> callback option \<Rightarrow> error + unit" where
  "fs_access w p cb =
     (case cb of
        None \<Rightarrow> Inl (TypeError ''The cb argument must be of type function'')
      | Some f \<Rightarrow> Inr ())"

text \<open>Lines 494 to 510: \<open>await fs.access(imgPath)\<close> inside \<open>try\<close>, the fetch inside its \<open>catch\<close>.\<close>

definition prepare_image :: "env \<Rightarrow> jsstring \<Rightarrow> string \<Rightarrow> world \<Rightarrow> world" where
  "prepare_image env query imgPath w =
     (case fs_access w imgPath None of
        Inr u \<Rightarrow> w
      | Inl err \<Rightarrow> snd (fetchImage env query imgPath w))"

definition audio_path :: "string \<Rightarrow> item \<Rightarrow> string" where
  "audio_path outputDir item =
     path_join outputDir (''audio_'' @ dec (item_id item + 1) @ ''_'' @ language item @ ''.mp3'')"

definition img_path :: "string \<Rightarrow> item \<Rightarrow> string" where
  "img_path outputDir item = path_join outputDir (''img'' @ dec (item_id item + 1) @ ''.png'')"

definition output_video :: "string \<Rightarrow> item \<Rightarrow> string" where
  "output_video outputDir item =
     path_join outputDir (''output_'' @ dec (item_id item + 1) @ ''_'' @ language item @ ''.mp4'')"

definition reel_path :: "string \<Rightarrow> item \<Rightarrow> string" where
  "reel_path outputDir item =
     path_join outputDir (''reel_'' @ language item @ dec (item_id item + 1) @ ''.mp4'')"

text \<open>
  The steps of one iteration after the narration is saved (lines 476 to 547); every
  \<open>catch\<close> among them only logs.
\<close>

definition after_tts :: "env \<Rightarrow> string \<Rightarrow> item \<Rightarrow> world \<Rightarrow> world" where
  "after_tts env outputDir item w1 =
     (let titleText = prepareText (title item)
                        (if language item = ''english'' then 40
                         else if language item = ''gujarati'' then 32 else 36);
          descText = prepareText (description item) 46;
          w2 = prepare_image env (title item) (img_path outputDir item) w1;
          w3 = snd (overlayImage env
                      (if india item then path_join (cwd env) ''assests/REELS/Reel_3.mp4''
                       else path_join (cwd env) ''assests/REELS/Reel_4.mp4'')
                      (img_path outputDir item) (output_video outputDir item) w2)
      in snd (generateReel env (img_path outputDir item) (output_video outputDir item)
                (audio_path outputDir item) titleText descText (reel_path outputDir item) w3))"

text \<open>One iteration of the loop of lines 455 to 548; the first branch is the \<open>continue\<close>.\<close>

definition process_item ::
  "env \<Rightarrow> string \<Rightarrow> world \<times> audio_file list \<Rightarrow> item \<Rightarrow> world \<times> audio_file list" where
  "process_item env outputDir s item =
     (case s of (w, audioFiles) \<Rightarrow>
        (case fetchTTS env (description item) (audio_path outputDir item) w of
           (Inl err, w1) \<Rightarrow> (w1, audioFiles)
         | (Inr u, w1) \<Rightarrow>
             (after_tts env outputDir item w1,
              audioFiles @ [\<lparr>af_path = audio_path outputDir item, af_title = title item,
                              af_desc = description item\<rparr>])))"

definition generateTTS :: "env \<Rightarrow> item list \<Rightarrow> string \<Rightarrow> world \<Rightarrow> world \<times> audio_file list" where
  "generateTTS env allNews outputDir w =
     (if length allNews = 0 then (w, [])
      else foldl (process_item env outputDir) (w, []) allNews)"

section \<open>getAllVideos, mergeVideos and the assembly of one language\<close>

text \<open>
  The match of \<^verbatim>\<open>^reel_${language}(\d+)\.mp4$\<close> with the \<open>i\<close> flag, for a language made
  of letters as the three of line 926 are: the digits captured, or \<open>None\<close> for \<open>null\<close>.
\<close>

definition reel_match :: "string \<Rightarrow> string \<Rightarrow> string option" where
  "reel_match lang file =
     (let pre = ''reel_'' @ lang;
          n = length file
      in if starts_with_ci pre file \<and> length pre + 4 \<le> n
            \<and> map lower_ascii (drop (n - 4) file) = ''.mp4''
         then (let ds = take (n - 4 - length pre) (drop (length pre) file)
               in if ds \<noteq> [] \<and> list_all is_digit ds then Some ds else None)
         else None)"

text \<open>
  \<open>parseInt(digits, 10)\<close>. The value is exact as long as it is below \<open>2 ^ 53\<close>; the
  statements about the order are made for such suffixes.
\<close>

definition parseInt10 :: "string \<Rightarrow> nat" where
  "parseInt10 ds = foldl (\<lambda>n c. 10 * n + (of_char c - 48)) 0 ds"

definition reel_number :: "string \<Rightarrow> string \<Rightarrow> nat" where
  "reel_number lang file = (case reel_match lang file of Some ds \<Rightarrow> parseInt10 ds | None \<Rightarrow> 0)"

text \<open>
  Lines 553 to 578. \<open>Array.prototype.sort\<close> is stable, as \<open>sort_key\<close> is.
  \<open>readdirSync\<close> of a path that is not a directory throws.
\<close>

definition getAllVideos :: "world \<Rightarrow> string \<Rightarrow> string \<Rightarrow> error + string list" where
  "getAllVideos w folderPath lang =
     (if \<not> existsSync w folderPath then Inr []
      else case dirs w folderPath of
             None \<Rightarrow> Inl (FsError ''ENOTDIR'')
           | Some names \<Rightarrow>
               let videoFiles = filter (\<lambda>file. reel_match lang file \<noteq> None) names
               in Inr (map (path_join folderPath) (sort_key (reel_number lang) videoFiles)))"

record stream_check =
  sc_file :: string
  hasVideo :: bool
  hasAudio :: bool

definition checkStreams :: "env \<Rightarrow> world \<Rightarrow> string \<Rightarrow> error + stream_check" where
  "checkStreams env w file =
     (case ffprobe_streams env (files w) file of
        Inl err \<Rightarrow> Inl err
      | Inr codec_types \<Rightarrow>
          Inr \<lparr>sc_file = file, hasVideo = (''video'' \<in> set codec_types),
               hasAudio = (''audio'' \<in> set codec_types)\<rparr>)"

text \<open>\<open>Promise.all(videoFiles.map(checkStreams))\<close>: every result in order, or a rejection.\<close>

fun validateVideos :: "env \<Rightarrow> world \<Rightarrow> string list \<Rightarrow> error + stream_check list" where
  "validateVideos env w [] = Inr []"
| "validateVideos env w (file # rest) =
     (case checkStreams env w file of
        Inl err \<Rightarrow> Inl err
      | Inr r \<Rightarrow>
          (case validateVideos env w rest of
             Inl err \<Rightarrow> Inl err
           | Inr rs \<Rightarrow> Inr (r # rs)))"

definition merge_command :: "string list \<Rightarrow> string \<Rightarrow> ffmpeg_cmd" where
  "merge_command videoFiles outputFile =
     \<lparr>cmd_inputs = videoFiles,
      cmd_filter = Concat (length videoFiles) 1 1,
      cmd_options = [Opt ''-y'', Opt ''-c:v libx264'', Opt ''-crf 23'', Opt ''-preset veryfast'',
                     Opt ''-c:a aac'', Opt ''-b:a 192k'', Opt ''-ac 2'', Opt ''-ar 44100''],
      cmd_output = outputFile\<rparr>"

text \<open>Lines 603 to 656.\<close>

definition mergeVideos :: "env \<Rightarrow> string list \<Rightarrow> string \<Rightarrow> world \<Rightarrow> (error + unit) \<times> world" where
  "mergeVideos env videoFiles outputFile w =
     (case validateVideos env w videoFiles of
        Inl err \<Rightarrow> (Inl err, w)
      | Inr results \<Rightarrow>
          let broken = filter (\<lambda>r. \<not> hasAudio r) results;
              w1 = (if length broken > 0
                    then w\<lparr>events := events w @ [Warn (map sc_file broken)]\<rparr> else w)
          in if length videoFiles = 0 then (Inl NoVideos, w1)
             else run_ffmpeg env (merge_command videoFiles outputFile) w1)"

definition intro_clip :: "env \<Rightarrow> string" where
  "intro_clip env = path_join (cwd env) ''assests/REELS/Reel_1.mp4''"

definition outro_clip :: "env \<Rightarrow> string" where
  "outro_clip env = path_join (cwd env) ''assests/REELS/Reel_5.mp4''"

text \<open>Lines 927 to 936: the list handed to \<open>mergeVideos\<close> for one language.\<close>

definition merge_list :: "env \<Rightarrow> world \<Rightarrow> string \<Rightarrow> string \<Rightarrow> error + string list" where
  "merge_list env w outputDir lang =
     (case getAllVideos w outputDir lang of
        Inl err \<Rightarrow> Inl err
      | Inr videos \<Rightarrow>
          Inr (filter (existsSync w) ([intro_clip env] @ videos @ [outro_clip env])))"

definition assemble_language :: "env \<Rightarrow> string \<Rightarrow> string \<Rightarrow> world \<Rightarrow> (error + unit) \<times> world" where
  "assemble_language env outputDir lang w =
     (case merge_list env w outputDir lang of
        Inl err \<Rightarrow> (Inl err, w)
      | Inr allVideos \<Rightarrow>
          if length allVideos = 0 then (Inl NoVideos, w)
          else mergeVideos env allVideos (path_join outputDir (''final_'' @ lang @ ''_video.mp4'')) w)"

section \<open>Example environments\<close>

text \<open>
  A backend whose every model answers with an object that has one \<open>India\<close> item and no
  \<open>World\<close> key, with the value \<open>JSON.parse\<close> gives for that text.
\<close>

definition india_only_text :: string where
  \<open>india_only_text = ''{"India":[1]}''\<close>

definition env_india_only :: gemini_env where
  "env_india_only =
     \<lparr>generateContent = (\<lambda>m. Inr (Text india_only_text)),
      JSON_parse = (\<lambda>s. if s = india_only_text
                          then Some (JObject [(''India'', JArray [JNumber 1])]) else None)\<rparr>"

text \<open>
  A backend whose first model is unavailable and whose other models answer with one item
  for each region.
\<close>

definition both_regions_text :: string where
  \<open>both_regions_text = ''{"India":[1],"World":[2]}''\<close>

definition both_regions :: json where
  "both_regions = JObject [(''India'', JArray [JNumber 1]), (''World'', JArray [JNumber 2])]"

definition env_second_ok :: gemini_env where
  "env_second_ok =
     \<lparr>generateContent =
        (\<lambda>m. if m = ''gemini-1.5-flash'' then Inl (BackendError ''503'')
             else Inr (Text both_regions_text)),
      JSON_parse = (\<lambda>s. if s = both_regions_text then Some both_regions else None)\<rparr>"

text \<open>
  A results page whose first entry is flagged and whose second is not, collaborators that
  all succeed, an audio probe that reports 3.5 seconds (0 for \<open>silent.mp3\<close>, the text
  \<open>N/A\<close> for \<open>stream.mp3\<close>, a failure for \<open>broken.mp3\<close>, no sized stream in
  \<open>audio_only.mp4\<close>), and a stream probe that finds no audio in the second English clip.
  No example reads a numeric text, so \<open>literal_value\<close> is never asked.
  \<open>world_out\<close> is an output directory after a run, \<open>env_tts_down\<close> the same collaborators
  with the synthesis endpoint timing out.
\<close>

definition li_youtube :: li where
  "li_youtube = \<lparr>li_data = Some ''www.YouTube.com'', li_aria_label = Some ''clip'',
                  li_img_data_src = None, li_img_src = Some ''https://tse.example/yt.jpg?pid=1''\<rparr>"

definition li_photo :: li where
  "li_photo = \<lparr>li_data = Some ''news.example'', li_aria_label = Some ''photo'',
                li_img_data_src = Some ''https://tse.example/a.jpg?pid=Api&w=10'',
                li_img_src = None\<rparr>"

definition env_example :: env where
  "env_example =
     \<lparr>cwd = ''/app'',
      axios_get_audio = (\<lambda>r. Inr ''mp3''),
      axios_get_page = (\<lambda>u. Inr [li_youtube, li_photo]),
      axios_get_image = (\<lambda>u. Inr ''jpeg''),
      sharp_png = (\<lambda>d. Inr ''png''),
      ffprobe = (\<lambda>fs p.
         if p = ''/out/silent.mp3''
         then Inr \<lparr>format_duration = Some (JsNumber (Fin 0)), streams = []\<rparr>
         else if p = ''/out/stream.mp3''
         then Inr \<lparr>format_duration = Some (JsString ''N/A''), streams = []\<rparr>
         else if p = ''/out/audio_only.mp4''
         then Inr \<lparr>format_duration = Some (JsNumber (Fin 20)), streams = []\<rparr>
         else if p = ''/out/broken.mp3'' then Inl (ProbeError ''Invalid data'')
         else Inr \<lparr>format_duration = Some (JsNumber (Fin (7 / 2))),
                   streams = [\<lparr>st_width = Some 1080, st_height = Some 1920\<rparr>]\<rparr>),
      ffmpeg_run = (\<lambda>fs c. Inr ''mp4''),
      ffprobe_streams = (\<lambda>fs p.
         Inr (if p = ''/out/reel_english2.mp4'' then [''video''] else [''video'', ''audio''])),
      literal_value = (\<lambda>t. Fin 0)\<rparr>"

definition world0 :: world where
  "world0 = \<lparr>files = Map.empty, dirs = Map.empty, events = []\<rparr>"

definition news_query :: jsstring where
  "news_query = [0x4E, 0x65, 0x77, 0x73]"

definition world_out :: world where
  "world_out =
     \<lparr>files = [''/app/assests/REELS/Reel_1.mp4'' \<mapsto> ''intro'',
               ''/app/assests/REELS/Reel_5.mp4'' \<mapsto> ''outro'',
               ''/out/reel_english10.mp4'' \<mapsto> ''ten'',
               ''/out/reel_english2.mp4'' \<mapsto> ''two'',
               ''/out/reel_hindi1.mp4'' \<mapsto> ''one'',
               ''/out/img1.png'' \<mapsto> ''old''],
      dirs = [''/out'' \<mapsto> [''reel_english10.mp4'', ''reel_hindi1.mp4'', ''img1.png'',
                               ''reel_english2.mp4'']],
      events = []\<rparr>"

definition env_tts_down :: env where
  "env_tts_down = env_example\<lparr>axios_get_audio := (\<lambda>r. Inl (HttpError ''timeout of 60000ms exceeded''))\<rparr>"

definition item1 :: item where
  "item1 = \<lparr>item_id = 0, language = ''english'', title = news_query, description = news_query,
             india = True\<rparr>"

section \<open>Properties of cleanGeminiJSON\<close>

lemma indexOf_takeWhile:
  "indexOf s c = (if c \<in> set s then Some (length (takeWhile (\<lambda>x. x \<noteq> c) s)) else None)"
  by (induction s) auto

lemma lastIndexOf_takeWhile:
  "lastIndexOf s c =
     (if c \<in> set s then Some (length s - 1 - length (takeWhile (\<lambda>x. x \<noteq> c) (rev s))) else None)"
  by (simp add: lastIndexOf_def indexOf_takeWhile)

lemma takeWhile_less_length:
  "c \<in> set s \<Longrightarrow> length (takeWhile (\<lambda>x. x \<noteq> c) s) < length s"
  by (induction s) auto

lemma takeWhile_affix:
  "c \<notin> set p \<Longrightarrow> c \<in> set t \<Longrightarrow>
   takeWhile (\<lambda>x. x \<noteq> c) (p @ t @ q) = p @ takeWhile (\<lambda>x. x \<noteq> c) t"
  by (induction p) (auto simp: takeWhile_append1)

lemma indexOf_affix:
  assumes "c \<notin> set p" and "c \<in> set t"
  shows "indexOf (p @ t @ q) c = map_option (\<lambda>i. length p + i) (indexOf t c)"
proof -
  have "takeWhile (\<lambda>x. x \<noteq> c) (p @ t @ q) = p @ takeWhile (\<lambda>x. x \<noteq> c) t"
    using assms by (simp add: takeWhile_affix)
  with assms show ?thesis by (simp add: indexOf_takeWhile)
qed

lemma lastIndexOf_affix:
  assumes "c \<notin> set q" and "c \<in> set t"
  shows "lastIndexOf (p @ t @ q) c = map_option (\<lambda>i. length p + i) (lastIndexOf t c)"
proof -
  have "takeWhile (\<lambda>x. x \<noteq> c) (rev q @ rev t @ rev p) = rev q @ takeWhile (\<lambda>x. x \<noteq> c) (rev t)"
    using assms by (simp add: takeWhile_affix)
  moreover have "length (takeWhile (\<lambda>x. x \<noteq> c) (rev t)) < length t"
    using takeWhile_less_length [of c "rev t"] assms by simp
  ultimately show ?thesis using assms by (simp add: lastIndexOf_takeWhile)
qed

lemma substring_affix:
  assumes "a \<le> length t" and "b \<le> length t"
  shows "substring (p @ t @ q) (length p + a) (length p + b) = substring t a b"
  using assms by (simp add: substring_def Let_def min_def max_def)

lemma indexOf_less: "indexOf s c = Some i \<Longrightarrow> i < length s"
  by (auto simp: indexOf_takeWhile takeWhile_less_length split: if_splits)

lemma lastIndexOf_less: "lastIndexOf s c = Some i \<Longrightarrow> i < length s"
proof -
  assume h: "lastIndexOf s c = Some i"
  then have "c \<in> set s" by (auto simp: lastIndexOf_takeWhile split: if_splits)
  then have "0 < length s" by (cases s) auto
  with h show ?thesis by (auto simp: lastIndexOf_takeWhile split: if_splits)
qed

lemma curly_slice_affix:
  assumes "nobrace p" and "nobrace q" and "CHR ''{'' \<in> set t" and "CHR ''}'' \<in> set t"
  shows "curly_slice (p @ t @ q) = curly_slice t"
proof -
  obtain a where a: "indexOf t CHR ''{'' = Some a"
    using assms(3) by (simp add: indexOf_takeWhile)
  obtain b where b: "lastIndexOf t CHR ''}'' = Some b"
    using assms(4) by (simp add: lastIndexOf_takeWhile)
  have la: "a \<le> length t" using indexOf_less [OF a] by simp
  have lb: "b + 1 \<le> length t" using lastIndexOf_less [OF b] by simp
  have "indexOf (p @ t @ q) CHR ''{'' = Some (length p + a)"
    using indexOf_affix [of "CHR ''{''" p t q] assms a by (simp add: nobrace_def)
  moreover have "lastIndexOf (p @ t @ q) CHR ''}'' = Some (length p + b)"
    using lastIndexOf_affix [of "CHR ''}''" q t p] assms b by (simp add: nobrace_def)
  ultimately show ?thesis
    using substring_affix [OF la lb, of p q] a b by (simp add: curly_slice_def)
qed


lemma nobrace_append: "nobrace (p @ q) \<longleftrightarrow> nobrace p \<and> nobrace q"
  by (auto simp: nobrace_def)

lemma wrapsI: "s = p @ t @ q \<Longrightarrow> nobrace p \<Longrightarrow> nobrace q \<Longrightarrow> wraps s t"
  unfolding wraps_def by blast

lemma wraps_refl: "wraps s s"
  by (rule wrapsI [of s "[]" s "[]"]) (simp_all add: nobrace_def)

lemma wraps_trans:
  assumes "wraps s t" and "wraps t u"
  shows "wraps s u"
proof -
  obtain p q where 1: "s = p @ t @ q" "nobrace p" "nobrace q"
    using assms(1) unfolding wraps_def by blast
  obtain p' q' where 2: "t = p' @ u @ q'" "nobrace p'" "nobrace q'"
    using assms(2) unfolding wraps_def by blast
  have "s = (p @ p') @ u @ (q' @ q)" by (simp add: 1(1) 2(1))
  then show ?thesis
    by (rule wrapsI) (simp_all add: nobrace_append 1 2)
qed

lemma wraps_brace:
  assumes "wraps s t" and "c = CHR ''{'' \<or> c = CHR ''}''" and "c \<in> set s"
  shows "c \<in> set t"
proof -
  obtain p q where 1: "s = p @ t @ q" "nobrace p" "nobrace q"
    using assms(1) unfolding wraps_def by blast
  have "c \<notin> set p" "c \<notin> set q" using 1(2,3) assms(2) by (auto simp: nobrace_def)
  moreover have "c \<in> set p \<union> set t \<union> set q" using assms(3) 1(1) by auto
  ultimately show ?thesis by blast
qed

lemma curly_slice_wraps:
  assumes "wraps s t" and "CHR ''{'' \<in> set t" and "CHR ''}'' \<in> set t"
  shows "curly_slice s = curly_slice t"
proof -
  obtain p q where 1: "s = p @ t @ q" "nobrace p" "nobrace q"
    using assms(1) unfolding wraps_def by blast
  show ?thesis
    unfolding 1(1) using 1(2,3) assms(2,3) by (rule curly_slice_affix)
qed

lemma not_space_curly: "\<not> is_space CHR ''{''" "\<not> is_space CHR ''}''"
  by (simp_all add: is_space_def)

lemma spaces_nobrace: "\<forall>c\<in>set p. is_space c \<Longrightarrow> nobrace p"
  using not_space_curly by (auto simp: nobrace_def)

lemma wraps_trim: "wraps s (trim s)"
proof -
  let ?d = "dropWhile is_space s"
  let ?r = "rev (takeWhile is_space (rev ?d))"
  have "rev (takeWhile is_space (rev ?d) @ dropWhile is_space (rev ?d)) = ?d"
    by (simp only: takeWhile_dropWhile_id rev_rev_ident)
  then have "rev (dropWhile is_space (rev ?d)) @ ?r = ?d"
    by (simp only: rev_append)
  then have 2: "trim s @ ?r = ?d"
    by (simp only: trim_def)
  have "takeWhile is_space s @ (trim s @ ?r) = s"
    by (simp only: 2 takeWhile_dropWhile_id)
  then have 3: "s = takeWhile is_space s @ trim s @ ?r" by (rule sym)
  have "nobrace (takeWhile is_space s)"
    by (rule spaces_nobrace) (auto dest: set_takeWhileD)
  moreover have "nobrace ?r"
    by (rule spaces_nobrace) (auto dest: set_takeWhileD)
  ultimately show ?thesis using 3 by (rule wrapsI [rotated])
qed

lemma lower_ascii_curly:
  "lower_ascii c = CHR ''{'' \<longleftrightarrow> c = CHR ''{''" "lower_ascii c = CHR ''}'' \<longleftrightarrow> c = CHR ''}''"
proof -
  have v: "(of_char (lower_ascii c) :: nat) =
      (if (65::nat) \<le> of_char c \<and> of_char c \<le> (90::nat) then of_char c + 32 else of_char c)"
    by (simp add: lower_ascii_def)
  have i: "\<And>d. lower_ascii c = d \<longleftrightarrow> (of_char (lower_ascii c) :: nat) = of_char d"
    by simp
  have k: "\<And>d. c = d \<longleftrightarrow> (of_char c :: nat) = of_char d"
    by simp
  show "lower_ascii c = CHR ''{'' \<longleftrightarrow> c = CHR ''{''"
    unfolding i v k by (simp split: if_splits)
  show "lower_ascii c = CHR ''}'' \<longleftrightarrow> c = CHR ''}''"
    unfolding i v k by (simp split: if_splits)
qed

lemma wraps_strip_fence_json: "wraps s (strip_fence_json s)"
proof (cases "starts_with_ci ''```json'' s")
  case True
  have len: "length ''```json'' = 7" by simp
  from True have "map lower_ascii (take (length ''```json'') s) = map lower_ascii ''```json''"
    by (simp only: starts_with_ci_def)
  then have "map lower_ascii (take 7 s) = map lower_ascii ''```json''"
    by (simp only: len)
  moreover have "map lower_ascii ''```json'' = ''```json''"
    by (simp add: lower_ascii_def)
  ultimately have m: "map lower_ascii (take 7 s) = ''```json''" by simp
  have nb: "nobrace (take 7 s)"
  proof -
    have "set (map lower_ascii (take 7 s)) = set ''```json''" by (simp only: m)
    then have "lower_ascii ` set (take 7 s) = set ''```json''" by (simp only: set_map)
    then have "\<forall>c\<in>set (take 7 s). lower_ascii c \<in> set ''```json''" by blast
    then have "\<forall>c\<in>set (take 7 s). lower_ascii c \<noteq> CHR ''{'' \<and> lower_ascii c \<noteq> CHR ''}''"
      by auto
    then show ?thesis unfolding nobrace_def lower_ascii_curly by blast
  qed
  have "strip_fence_json s = drop 7 s" using True by (simp add: strip_fence_json_def)
  then have "s = take 7 s @ strip_fence_json s @ []" by (simp only: append_take_drop_id append_Nil2)
  then show ?thesis using nb by (rule wrapsI) (simp add: nobrace_def)
next
  case False
  then have "strip_fence_json s = s" by (simp add: strip_fence_json_def)
  then show ?thesis by (simp only: wraps_refl)
qed

lemma wraps_strip_fence_open: "wraps s (strip_fence_open s)"
proof (cases "take 3 s = ''```''")
  case True
  then have nb: "nobrace (take 3 s)" by (simp add: nobrace_def)
  have "strip_fence_open s = drop 3 s" using True by (simp add: strip_fence_open_def)
  then have "s = take 3 s @ strip_fence_open s @ []" by (simp only: append_take_drop_id append_Nil2)
  then show ?thesis using nb by (rule wrapsI) (simp add: nobrace_def)
next
  case False
  then have "strip_fence_open s = s" by (simp add: strip_fence_open_def)
  then show ?thesis by (simp only: wraps_refl)
qed

lemma wraps_strip_fence_close: "wraps s (strip_fence_close s)"
proof (cases "3 \<le> length s \<and> drop (length s - 3) s = ''```''")
  case True
  then have nb: "nobrace (drop (length s - 3) s)" by (simp add: nobrace_def)
  have "strip_fence_close s = take (length s - 3) s"
    using True by (simp add: strip_fence_close_def)
  then have "s = [] @ strip_fence_close s @ drop (length s - 3) s"
    by (simp only: append_take_drop_id append_Nil)
  then show ?thesis using _ nb by (rule wrapsI) (simp add: nobrace_def)
next
  case False
  then have "strip_fence_close s = s" by (auto simp: strip_fence_close_def)
  then show ?thesis by (simp only: wraps_refl)
qed

lemma wraps_fence_body: "wraps s (fence_body s)"
proof -
  have "wraps (trim s) (strip_fence_open (strip_fence_json (trim s)))"
    using wraps_strip_fence_json wraps_strip_fence_open by (rule wraps_trans)
  then have "wraps (trim s) (fence_body s)"
    unfolding fence_body_def using wraps_strip_fence_close by (rule wraps_trans)
  with wraps_trim show ?thesis by (rule wraps_trans)
qed

lemma wraps_fenced: "wraps (fenced u) u"
proof -
  have "fenced u = (''```json'' @ [CHR 0x0A]) @ u @ ([CHR 0x0A] @ ''```'')"
    by (simp add: fenced_def)
  then show ?thesis by (rule wrapsI) (simp_all add: nobrace_def)
qed

lemma cleanGeminiJSON_body:
  "s \<noteq> [] \<Longrightarrow> cleanGeminiJSON s = trim (curly_slice (fence_body s))"
  by (simp add: cleanGeminiJSON_def fence_body_def Let_def)

lemma cleanGeminiJSON_braces:
  assumes "CHR ''{'' \<in> set s" and "CHR ''}'' \<in> set s"
  shows "cleanGeminiJSON s = trim (curly_slice s)"
proof -
  have ne: "s \<noteq> []" using assms by auto
  have "CHR ''{'' \<in> set (fence_body s)" "CHR ''}'' \<in> set (fence_body s)"
    using wraps_brace [OF wraps_fence_body _ assms(1)] wraps_brace [OF wraps_fence_body _ assms(2)]
    by simp_all
  then have "curly_slice s = curly_slice (fence_body s)"
    by (rule curly_slice_wraps [OF wraps_fence_body])
  then show ?thesis using ne by (simp add: cleanGeminiJSON_body)
qed

lemma fenced_same:
  assumes "CHR ''{'' \<in> set u" and "CHR ''}'' \<in> set u"
  shows "cleanGeminiJSON (fenced u) = cleanGeminiJSON u"
proof -
  have "CHR ''{'' \<in> set (fenced u)" "CHR ''}'' \<in> set (fenced u)"
    using assms by (simp_all add: fenced_def)
  then have "cleanGeminiJSON (fenced u) = trim (curly_slice (fenced u))"
    by (rule cleanGeminiJSON_braces)
  moreover have "curly_slice (fenced u) = curly_slice u"
    using wraps_fenced assms by (rule curly_slice_wraps)
  ultimately show ?thesis
    using cleanGeminiJSON_braces [OF assms] by simp
qed

lemma trim_id:
  assumes "s \<noteq> []" and "\<not> is_space (hd s)" and "\<not> is_space (last s)"
  shows "trim s = s"
proof -
  have "dropWhile is_space s = s" using assms by (cases s) auto
  moreover have "dropWhile is_space (rev s) = rev s"
    using assms by (cases "rev s") (auto simp: hd_rev)
  ultimately show ?thesis by (simp add: trim_def)
qed


lemma indexOf_nth: "indexOf s c = Some i \<Longrightarrow> s ! i = c"
proof (induction s arbitrary: i)
  case Nil
  then show ?case by simp
next
  case (Cons x xs)
  then show ?case by (cases "x = c") auto
qed

lemma lastIndexOf_nth:
  assumes "lastIndexOf s c = Some j"
  shows "s ! j = c"
proof -
  obtain k where k: "indexOf (rev s) c = Some k" and j: "j = length s - 1 - k"
    using assms by (auto simp: lastIndexOf_def)
  have kl: "k < length s" using indexOf_less [OF k] by simp
  have "rev s ! k = c" using k by (rule indexOf_nth)
  then have "s ! (length s - Suc k) = c" using kl by (simp add: rev_nth)
  then show ?thesis using j by simp
qed

lemma curly_slice_span:
  assumes "indexOf u CHR ''{'' = Some i" and "lastIndexOf u CHR ''}'' = Some j" and "i \<le> j"
  shows "trim (curly_slice u) = take (j + 1 - i) (drop i u)"
proof -
  let ?t = "take (j + 1 - i) (drop i u)"
  have jl: "j < length u" using assms(2) by (rule lastIndexOf_less)
  have cs: "curly_slice u = ?t"
    using assms jl by (simp add: curly_slice_def substring_def Let_def min_def max_def)
  have len: "length ?t = j + 1 - i" using jl assms(3) by simp
  have ne: "?t \<noteq> []" using len assms(3) by auto
  have "hd ?t = ?t ! 0" using ne by (simp add: hd_conv_nth)
  also have "\<dots> = u ! i" using jl assms(3) by simp
  finally have h: "hd ?t = CHR ''{''" using indexOf_nth [OF assms(1)] by simp
  have "last ?t = ?t ! (j - i)" using ne len by (simp add: last_conv_nth)
  also have "\<dots> = u ! j" using jl assms(3) by simp
  finally have l: "last ?t = CHR ''}''" using lastIndexOf_nth [OF assms(2)] by simp
  have "trim ?t = ?t"
    using ne h l not_space_curly by (intro trim_id) simp_all
  then show ?thesis using cs by simp
qed

lemma indexOf_in_set: "indexOf s c = Some i \<Longrightarrow> c \<in> set s"
  by (auto simp: indexOf_takeWhile split: if_splits)

lemma lastIndexOf_in_set: "lastIndexOf s c = Some i \<Longrightarrow> c \<in> set s"
  by (auto simp: lastIndexOf_takeWhile split: if_splits)

text \<open>
  Claim C4, as the code has it. For every text \<open>u\<close> with an opening and a closing curly
  brace, cleaning the text wrapped in a \<^verbatim>\<open>```json\<close> fence gives exactly what cleaning
  \<open>u\<close> itself gives; and when the first opening brace is not after the last closing one,
  that result is the part of the raw text from the first opening brace to the last closing
  brace. The same holds for any wrapping of \<open>u\<close> in two texts without braces. Without
  braces in \<open>u\<close> the two can differ: an empty text is cleaned to \<open>{}\<close>, the empty fence
  to the empty string.
\<close>

theorem cleanGeminiJSON_fenced_same:
  assumes "indexOf u CHR ''{'' = Some i" and "lastIndexOf u CHR ''}'' = Some j"
  shows "cleanGeminiJSON (fenced u) = cleanGeminiJSON u
         \<and> (i \<le> j \<longrightarrow> cleanGeminiJSON u = take (j + 1 - i) (drop i u))
         \<and> (\<forall>p q. nobrace p \<and> nobrace q \<longrightarrow> cleanGeminiJSON (p @ u @ q) = cleanGeminiJSON u)"
proof -
  have b: "CHR ''{'' \<in> set u" "CHR ''}'' \<in> set u"
    using assms indexOf_in_set lastIndexOf_in_set by blast+
  have "cleanGeminiJSON (fenced u) = cleanGeminiJSON u"
    using b by (rule fenced_same)
  moreover have "i \<le> j \<longrightarrow> cleanGeminiJSON u = take (j + 1 - i) (drop i u)"
    using cleanGeminiJSON_braces [OF b] curly_slice_span [OF assms] by simp
  moreover have "\<forall>p q. nobrace p \<and> nobrace q \<longrightarrow> cleanGeminiJSON (p @ u @ q) = cleanGeminiJSON u"
  proof (intro allI impI)
    fix p q assume n: "nobrace p \<and> nobrace q"
    have w: "wraps (p @ u @ q) u" using n by (intro wrapsI [of _ p u q]) simp_all
    have "CHR ''{'' \<in> set (p @ u @ q)" "CHR ''}'' \<in> set (p @ u @ q)"
      using b by simp_all
    then have "cleanGeminiJSON (p @ u @ q) = trim (curly_slice (p @ u @ q))"
      by (rule cleanGeminiJSON_braces)
    moreover have "curly_slice (p @ u @ q) = curly_slice u"
      using w b by (rule curly_slice_wraps)
    ultimately show "cleanGeminiJSON (p @ u @ q) = cleanGeminiJSON u"
      using cleanGeminiJSON_braces [OF b] by simp
  qed
  ultimately show ?thesis by blast
qed

theorem cleanGeminiJSON_fenced_same_witness:
  "indexOf ''x{a}y'' CHR ''{'' = Some 1 \<and> lastIndexOf ''x{a}y'' CHR ''}'' = Some 3
   \<and> cleanGeminiJSON (fenced ''x{a}y'') = cleanGeminiJSON ''x{a}y''
   \<and> cleanGeminiJSON ''x{a}y'' = ''{a}''"
proof -
  have 1: "indexOf ''x{a}y'' CHR ''{'' = Some 1" by simp
  have 2: "lastIndexOf ''x{a}y'' CHR ''}'' = Some 3" by (simp add: lastIndexOf_def)
  show ?thesis using cleanGeminiJSON_fenced_same [OF 1 2] 1 2 by simp
qed

theorem cleanGeminiJSON_fenced_counterexample:
  "cleanGeminiJSON (fenced []) = [] \<and> cleanGeminiJSON [] = ''{}''
   \<and> cleanGeminiJSON (fenced []) \<noteq> cleanGeminiJSON []
   \<and> cleanGeminiJSON (fenced ''```'') = ''```'' \<and> cleanGeminiJSON ''```'' = []"
  by (simp add: cleanGeminiJSON_def fenced_def trim_def is_space_def strip_fence_json_def
      strip_fence_open_def strip_fence_close_def curly_slice_def starts_with_ci_def
      lower_ascii_def lastIndexOf_def)

section \<open>Properties of getNews\<close>

lemma clean_india: "cleanGeminiJSON (trim india_only_text) = india_only_text"
  by code_simp

lemma attempt_cases:
  "attempt env m = Inr d \<longleftrightarrow>
     (\<exists>res text parsed.
        generateContent env m = Inr res \<and> response_text res = Inr text
        \<and> JSON_parse env (cleanGeminiJSON text) = Some parsed \<and> parsed \<noteq> JNull
        \<and> d = \<lparr>India = array_or_empty (get_prop parsed ''India''),
                World = array_or_empty (get_prop parsed ''World'')\<rparr>
        \<and> (0 < array_length (India d) \<or> 0 < array_length (World d)))"
  unfolding attempt_def
  by (auto simp: Let_def split: sum.splits option.splits if_splits)

lemma array_or_empty_is_array: "\<exists>xs. array_or_empty v = JArray xs"
  by (cases v rule: array_or_empty.cases) auto

lemma attempt_shape:
  assumes "attempt env m = Inr d"
  shows "\<exists>a b. d = \<lparr>India = JArray a, World = JArray b\<rparr> \<and> (0 < length a \<or> 0 < length b)"
proof -
  obtain parsed where d: "d = \<lparr>India = array_or_empty (get_prop parsed ''India''),
                World = array_or_empty (get_prop parsed ''World'')\<rparr>"
     and n: "0 < array_length (India d) \<or> 0 < array_length (World d)"
    using assms unfolding attempt_cases by blast
  obtain a where a: "array_or_empty (get_prop parsed ''India'') = JArray a"
    using array_or_empty_is_array by blast
  obtain b where b: "array_or_empty (get_prop parsed ''World'') = JArray b"
    using array_or_empty_is_array by blast
  show ?thesis using d n a b by auto
qed

lemma try_models_result:
  "fst (try_models env ms asked) = empty_digest
   \<or> (\<exists>m\<in>set ms. attempt env m = Inr (fst (try_models env ms asked)))"
  by (induction ms arbitrary: asked) (auto split: sum.splits)

lemma try_models_all_fail:
  "\<forall>m\<in>set ms. \<exists>e. attempt env m = Inl e \<Longrightarrow> try_models env ms asked = (empty_digest, asked @ ms)"
  by (induction ms arbitrary: asked) auto

lemma try_models_first_success:
  "\<forall>m\<in>set pre. \<exists>e. attempt env m = Inl e \<Longrightarrow> attempt env m = Inr d \<Longrightarrow>
   try_models env (pre @ m # post) asked = (d, asked @ pre @ [m])"
  by (induction pre arbitrary: asked) auto

lemma clean_both_regions: "cleanGeminiJSON (trim both_regions_text) = both_regions_text"
  by code_simp

text \<open>
  Claim C1, as the code has it. For every environment and key, \<open>getNews\<close> returns either
  the empty digest, or the digest made from the answer of one of the models, whose two
  fields are both arrays and of which at least one is not empty. (The test of line 194 is
  a disjunction: a digest with one empty region is returned as it is.)
\<close>

theorem getNews_digest_shape:
  "fst (getNews env key) = empty_digest \<or>
   (\<exists>a b. fst (getNews env key) = \<lparr>India = JArray a, World = JArray b\<rparr>
          \<and> (0 < length a \<or> 0 < length b)
          \<and> (\<exists>m\<in>set models. attempt env m = Inr (fst (getNews env key))))"
proof (cases "key = []")
  case True
  then show ?thesis by (simp add: getNews_def)
next
  case False
  then have g: "fst (getNews env key) = fst (try_models env models [])"
    by (simp add: getNews_def)
  show ?thesis
    using try_models_result [of env models "[]"] attempt_shape [of env _ "fst (try_models env models [])"]
    unfolding g by blast
qed

theorem getNews_digest_shape_witness:
  "fst (getNews env_india_only ''key'') \<noteq> empty_digest
   \<and> (\<exists>a b. fst (getNews env_india_only ''key'') = \<lparr>India = JArray a, World = JArray b\<rparr>
          \<and> (0 < length a \<or> 0 < length b))"
proof -
  have "fst (getNews env_india_only ''key'') = \<lparr>India = JArray [JNumber 1], World = JArray []\<rparr>"
    by (simp add: getNews_def models_def attempt_def env_india_only_def response_text_def
        clean_india)
  then have "fst (getNews env_india_only ''key'') \<noteq> empty_digest"
    by (simp add: empty_digest_def)
  then show ?thesis using getNews_digest_shape [of env_india_only "''key''"] by blast
qed

theorem getNews_one_region_counterexample:
  "fst (getNews env_india_only ''key'') = \<lparr>India = JArray [JNumber 1], World = JArray []\<rparr>
   \<and> \<not> (0 < array_length (India (fst (getNews env_india_only ''key'')))
         \<and> 0 < array_length (World (fst (getNews env_india_only ''key''))))
   \<and> fst (getNews env_india_only ''key'') \<noteq> empty_digest"
  by (simp add: getNews_def models_def attempt_def env_india_only_def response_text_def
      clean_india empty_digest_def)

text \<open>
  Claim C2. With a key, the models are asked in the order of the list: when model \<open>k\<close> is
  the first whose attempt succeeds, \<open>getNews\<close> returns its digest and has asked exactly the
  first \<open>k + 1\<close> models, in order; when every attempt fails it returns the empty digest,
  having asked all of them. An attempt succeeds exactly when the backend answers, the
  cleaned text parses to a value other than \<open>null\<close>, and the two region arrays are not
  both empty; its digest is then the two arrays.
\<close>

theorem getNews_fallback_order:
  assumes "key \<noteq> []"
  shows "(\<forall>k d. k < length models \<and> (\<forall>j<k. \<exists>e. attempt env (models ! j) = Inl e)
            \<and> attempt env (models ! k) = Inr d
          \<longrightarrow> getNews env key = (d, take (Suc k) models))
       \<and> ((\<forall>m\<in>set models. \<exists>e. attempt env m = Inl e)
          \<longrightarrow> getNews env key = (empty_digest, models))
       \<and> (\<forall>m d. attempt env m = Inr d \<longleftrightarrow>
            (\<exists>res text parsed.
               generateContent env m = Inr res \<and> response_text res = Inr text
               \<and> JSON_parse env (cleanGeminiJSON text) = Some parsed \<and> parsed \<noteq> JNull
               \<and> d = \<lparr>India = array_or_empty (get_prop parsed ''India''),
                       World = array_or_empty (get_prop parsed ''World'')\<rparr>
               \<and> (0 < array_length (India d) \<or> 0 < array_length (World d))))"
proof (intro conjI allI impI)
  fix k d
  assume h: "k < length models \<and> (\<forall>j<k. \<exists>e. attempt env (models ! j) = Inl e)
            \<and> attempt env (models ! k) = Inr d"
  then have k: "k < length models" by simp
  have split: "models = take k models @ models ! k # drop (Suc k) models"
    using k by (simp add: id_take_nth_drop)
  have pre: "\<forall>m\<in>set (take k models). \<exists>e. attempt env m = Inl e"
  proof
    fix m assume "m \<in> set (take k models)"
    then obtain j where "j < k" "m = models ! j"
      using k by (auto simp: in_set_conv_nth)
    then show "\<exists>e. attempt env m = Inl e" using h by blast
  qed
  have "try_models env (take k models @ models ! k # drop (Suc k) models) []
        = (d, [] @ take k models @ [models ! k])"
    using pre h by (intro try_models_first_success) auto
  then have "try_models env models [] = (d, take k models @ [models ! k])"
    using split by simp
  then show "getNews env key = (d, take (Suc k) models)"
    using assms k by (simp add: getNews_def take_Suc_conv_app_nth)
next
  assume "\<forall>m\<in>set models. \<exists>e. attempt env m = Inl e"
  then show "getNews env key = (empty_digest, models)"
    using assms try_models_all_fail [of models env "[]"] by (simp add: getNews_def)
next
  fix m d
  show "attempt env m = Inr d \<longleftrightarrow>
            (\<exists>res text parsed.
               generateContent env m = Inr res \<and> response_text res = Inr text
               \<and> JSON_parse env (cleanGeminiJSON text) = Some parsed \<and> parsed \<noteq> JNull
               \<and> d = \<lparr>India = array_or_empty (get_prop parsed ''India''),
                       World = array_or_empty (get_prop parsed ''World'')\<rparr>
               \<and> (0 < array_length (India d) \<or> 0 < array_length (World d)))"
    by (rule attempt_cases)
qed

theorem getNews_fallback_order_witness:
  "''key'' \<noteq> [] \<and> (1::nat) < length models
   \<and> attempt env_second_ok (models ! 0) = Inl (BackendError ''503'')
   \<and> attempt env_second_ok (models ! 1)
       = Inr \<lparr>India = JArray [JNumber 1], World = JArray [JNumber 2]\<rparr>
   \<and> getNews env_second_ok ''key''
       = (\<lparr>India = JArray [JNumber 1], World = JArray [JNumber 2]\<rparr>,
          [''gemini-1.5-flash'', ''gemini-1.5-pro''])"
proof -
  have k: "''key'' \<noteq> []" by simp
  have l: "(1::nat) < length models" by (simp add: models_def)
  have z: "attempt env_second_ok (models ! 0) = Inl (BackendError ''503'')"
    by (simp add: models_def attempt_def env_second_ok_def)
  then have f: "\<forall>j<1. \<exists>e. attempt env_second_ok (models ! j) = Inl e"
    by simp
  have s: "attempt env_second_ok (models ! 1)
             = Inr \<lparr>India = JArray [JNumber 1], World = JArray [JNumber 2]\<rparr>"
    by (simp add: models_def attempt_def env_second_ok_def response_text_def
        clean_both_regions both_regions_def)
  have "getNews env_second_ok ''key''
          = (\<lparr>India = JArray [JNumber 1], World = JArray [JNumber 2]\<rparr>, take (Suc 1) models)"
    using getNews_fallback_order [OF k, of env_second_ok] l f s by blast
  then show ?thesis using k l z s by (simp add: models_def)
qed

section \<open>Properties of fetchImage\<close>

lemmas char_eval = char_of_def bit_Suc_0_iff

lemma enc_news: "encodeURIComponent news_query = Inr ''News''"
  by (simp add: news_query_def is_lead_def is_trail_def escape_cp_def unreserved_def char_eval)

lemma enc_lone: "encodeURIComponent [0xD800] = Inl URIError"
  by (simp add: is_lead_def is_trail_def)

lemma flagged_youtube: "flagged li_youtube"
  by (simp add: flagged_def li_youtube_def toLowerCase_def to_lower_def char_eval)

lemma not_flagged_photo: "\<not> flagged li_photo"
  by (simp add: flagged_def li_photo_def toLowerCase_def to_lower_def char_eval)

lemma eligible_ex: "\<not> eligible li_youtube" "eligible li_photo"
  using flagged_youtube not_flagged_photo
  by (simp_all add: eligible_def img_src_of_def or_else_def li_photo_def)

lemma chosen_photo: "chosen li_photo = (''photo'', ''https://tse.example/a.jpg'')"
  by (simp add: chosen_def li_photo_def img_src_of_def or_else_def split_first_def)

lemma find_ex: "find eligible [li_youtube, li_photo] = Some li_photo"
  by (simp add: eligible_ex)

lemma foldl_each_li_Some: "foldl each_li (Some x) es = Some x"
  by (induction es) (simp_all add: each_li_def)

lemma each_li_None: "each_li None el = (if eligible el then Some (chosen el) else None)"
  by (simp add: each_li_def eligible_def chosen_def Let_def)

lemma select_image_find: "select_image entries = map_option chosen (find eligible entries)"
  unfolding select_image_def
  by (induction entries) (simp_all add: each_li_None foldl_each_li_Some)

lemma split_first_no_sep: "sep \<notin> set (split_first sep s)"
  by (auto simp: split_first_def dest: set_takeWhileD)

lemma encode_well_formed: "(\<exists>r. encodeURIComponent q = Inr r) \<longleftrightarrow> well_formed q"
  by (induction q rule: encodeURIComponent.induct) (auto split: sum.splits)

lemma fetchImage_events:
  assumes "encodeURIComponent query = Inr q" and "axios_get_page env (search_url @ q) = Inr es"
    and "find eligible es = Some el"
  shows "events (snd (fetchImage env query savePath w))
         = events w @ [GetPage (search_url @ q), GetImage (snd (chosen el))]"
  using assms
  by (simp add: fetchImage_def select_image_find Let_def split: sum.splits prod.splits)

lemma bex_upt: "(\<exists>i\<in>set [0..<Suc n]. P i) \<longleftrightarrow> (\<exists>i\<le>n. P i)"
proof -
  have "set [0..<Suc n] = {i. i \<le> n}" by (simp only: set_upt) auto
  then show ?thesis by blast
qed

lemma str_includes_le:
  "str_includes t w \<longleftrightarrow> (\<exists>i\<le>length t. take (length w) (drop i t) = w)"
proof (induction t)
  case Nil
  then show ?case by auto
next
  case (Cons x xs)
  have "(\<exists>i\<le>length (x # xs). take (length w) (drop i (x # xs)) = w)
        \<longleftrightarrow> take (length w) (x # xs) = w
            \<or> (\<exists>i\<le>length xs. take (length w) (drop i xs) = w)"
  proof
    assume "\<exists>i\<le>length (x # xs). take (length w) (drop i (x # xs)) = w"
    then obtain i where i: "i \<le> length (x # xs)" "take (length w) (drop i (x # xs)) = w"
      by blast
    show "take (length w) (x # xs) = w
            \<or> (\<exists>i\<le>length xs. take (length w) (drop i xs) = w)"
    proof (cases i)
      case 0
      then show ?thesis using i by simp
    next
      case (Suc k)
      then have "k \<le> length xs \<and> take (length w) (drop k xs) = w" using i by simp
      then show ?thesis by blast
    qed
  next
    assume "take (length w) (x # xs) = w
            \<or> (\<exists>i\<le>length xs. take (length w) (drop i xs) = w)"
    then show "\<exists>i\<le>length (x # xs). take (length w) (drop i (x # xs)) = w"
    proof
      assume "take (length w) (x # xs) = w"
      then have "0 \<le> length (x # xs) \<and> take (length w) (drop 0 (x # xs)) = w" by simp
      then show ?thesis by blast
    next
      assume "\<exists>i\<le>length xs. take (length w) (drop i xs) = w"
      then obtain k where k: "k \<le> length xs" "take (length w) (drop k xs) = w" by blast
      then have "Suc k \<le> length (x # xs) \<and> take (length w) (drop (Suc k) (x # xs)) = w"
        by simp
      then show ?thesis by blast
    qed
  qed
  then show ?case using Cons.IH by simp
qed

lemma str_includes_iff:
  "str_includes t w \<longleftrightarrow> (\<exists>i\<in>set [0..<Suc (length t)]. take (length w) (drop i t) = w)"
  unfolding bex_upt by (rule str_includes_le)

lemma of_char_to_lower:
  "(of_char (to_lower c) :: nat) =
     (if (65 \<le> (of_char c :: nat) \<and> (of_char c :: nat) \<le> 90)
         \<or> (192 \<le> (of_char c :: nat) \<and> (of_char c :: nat) \<le> 222 \<and> (of_char c :: nat) \<noteq> 215)
      then of_char c + 32 else of_char c)"
  by (simp add: to_lower_def Let_def)

lemma of_char_lower_ascii:
  "(of_char (lower_ascii c) :: nat) =
      (if (65::nat) \<le> of_char c \<and> of_char c \<le> (90::nat) then of_char c + 32 else of_char c)"
  by (simp add: lower_ascii_def)

lemma to_lower_ascii_letter:
  assumes "(97::nat) \<le> of_char x" and "(of_char x :: nat) \<le> 122"
  shows "to_lower c = x \<longleftrightarrow> lower_ascii c = x"
proof -
  have a: "to_lower c = x \<longleftrightarrow> (of_char (to_lower c) :: nat) = of_char x" by simp
  have b: "lower_ascii c = x \<longleftrightarrow> (of_char (lower_ascii c) :: nat) = of_char x" by simp
  show ?thesis
    unfolding a b of_char_to_lower of_char_lower_ascii using assms by auto
qed

lemma map_to_lower_ascii_word:
  assumes "\<forall>x\<in>set w. (97::nat) \<le> of_char x \<and> (of_char x :: nat) \<le> 122"
  shows "map to_lower s = w \<longleftrightarrow> map lower_ascii s = w"
  using assms
proof (induction s arbitrary: w)
  case Nil
  then show ?case by simp
next
  case (Cons c s)
  show ?case
  proof (cases w)
    case Nil
    then show ?thesis by simp
  next
    case (Cons x w')
    then show ?thesis
      using Cons.IH [of w'] Cons.prems to_lower_ascii_letter [of x c] by auto
  qed
qed

lemma flagged_contains_ci: "flagged el \<longleftrightarrow> contains_ci (or_empty (li_data el)) ''youtube''"
proof -
  let ?s = "or_empty (li_data el)"
  have w: "\<forall>x\<in>set ''youtube''. (97::nat) \<le> of_char x \<and> (of_char x :: nat) \<le> 122"
    by simp
  have l: "map lower_ascii ''youtube'' = ''youtube''" by (simp add: lower_ascii_def)
  have "flagged el \<longleftrightarrow>
          (\<exists>i\<in>set [0..<Suc (length ?s)]. take (length ''youtube'') (drop i (map to_lower ?s)) = ''youtube'')"
    by (simp only: flagged_def toLowerCase_def str_includes_iff length_map)
  also have "\<dots> \<longleftrightarrow>
          (\<exists>i\<in>set [0..<Suc (length ?s)]. map to_lower (take (length ''youtube'') (drop i ?s)) = ''youtube'')"
    by (simp only: take_map drop_map)
  also have "\<dots> \<longleftrightarrow>
          (\<exists>i\<in>set [0..<Suc (length ?s)]. map lower_ascii (take (length ''youtube'') (drop i ?s)) = ''youtube'')"
    by (simp only: map_to_lower_ascii_word [OF w])
  finally show ?thesis by (simp only: contains_ci_def l)
qed

lemma page_ex: "axios_get_page env_example u = Inr [li_youtube, li_photo]"
  by (simp add: env_example_def)

text \<open>
  Claim C5. The loop over the result entries is a search for the first entry that has an
  image source and whose \<open>data\<close> attribute, in lower case, does not contain \<open>youtube\<close>:
  the entry selected is never flagged, no entry before it is eligible, the URL kept is
  the source up to its first question mark, and that cleaned URL is the one requested
  for the download. An entry is flagged exactly when its \<open>data\<close> attribute contains the
  word in any mix of upper and lower case.
\<close>

theorem fetchImage_selects_first_unflagged:
  "select_image entries = map_option chosen (find eligible entries)
   \<and> (\<forall>el. find eligible entries = Some el \<longrightarrow>
         \<not> flagged el \<and> truthy_str (img_src_of el)
         \<and> (\<exists>i<length entries. entries ! i = el \<and> (\<forall>j<i. \<not> eligible (entries ! j)))
         \<and> snd (chosen el) = split_first CHR ''?'' (or_empty (img_src_of el))
         \<and> CHR ''?'' \<notin> set (snd (chosen el)))
   \<and> (\<forall>q el. encodeURIComponent query = Inr q
          \<and> axios_get_page env (search_url @ q) = Inr entries
          \<and> find eligible entries = Some el \<longrightarrow>
          events (snd (fetchImage env query savePath w))
            = events w @ [GetPage (search_url @ q), GetImage (snd (chosen el))])
   \<and> (\<forall>el. flagged el = contains_ci (or_empty (li_data el)) ''youtube'')"
proof (intro conjI allI impI)
  show "select_image entries = map_option chosen (find eligible entries)"
    by (rule select_image_find)
next
  fix el assume f: "find eligible entries = Some el"
  then obtain i where i: "i < length entries" "eligible (entries ! i)" "el = entries ! i"
    "\<forall>j<i. \<not> eligible (entries ! j)"
    unfolding find_Some_iff by blast
  show "\<not> flagged el" using i by (simp add: eligible_def)
  show "truthy_str (img_src_of el)" using i by (simp add: eligible_def)
  show "\<exists>i<length entries. entries ! i = el \<and> (\<forall>j<i. \<not> eligible (entries ! j))"
    using i by blast
  show "snd (chosen el) = split_first CHR ''?'' (or_empty (img_src_of el))"
    by (simp add: chosen_def)
  show "CHR ''?'' \<notin> set (snd (chosen el))"
    by (simp add: chosen_def split_first_no_sep)
next
  fix q el
  assume "encodeURIComponent query = Inr q
          \<and> axios_get_page env (search_url @ q) = Inr entries
          \<and> find eligible entries = Some el"
  then show "events (snd (fetchImage env query savePath w))
            = events w @ [GetPage (search_url @ q), GetImage (snd (chosen el))]"
    using fetchImage_events by blast
next
  fix el
  show "flagged el = contains_ci (or_empty (li_data el)) ''youtube''"
    by (rule flagged_contains_ci)
qed

theorem fetchImage_selects_first_unflagged_witness:
  "flagged li_youtube \<and> \<not> flagged li_photo
   \<and> select_image [li_youtube, li_photo] = Some (''photo'', ''https://tse.example/a.jpg'')
   \<and> events (snd (fetchImage env_example news_query ''/out/img1.png'' world0))
       = [GetPage (search_url @ ''News''), GetImage ''https://tse.example/a.jpg'']"
proof -
  note t = fetchImage_selects_first_unflagged
             [of "[li_youtube, li_photo]" news_query env_example "''/out/img1.png''" world0]
  have a: "select_image [li_youtube, li_photo] = map_option chosen (find eligible [li_youtube, li_photo])"
    using t by blast
  have b: "\<not> flagged li_photo" using t find_ex by blast
  have "encodeURIComponent news_query = Inr ''News''
          \<and> axios_get_page env_example (search_url @ ''News'') = Inr [li_youtube, li_photo]
          \<and> find eligible [li_youtube, li_photo] = Some li_photo"
    using enc_news page_ex find_ex by blast
  then have c: "events (snd (fetchImage env_example news_query ''/out/img1.png'' world0))
            = events world0 @ [GetPage (search_url @ ''News''), GetImage (snd (chosen li_photo))]"
    using t by blast
  show ?thesis
    using a b c flagged_youtube by (simp add: eligible_ex chosen_photo world0_def)
qed

text \<open>
  Claim C10, as the code has it. For every query in which each surrogate is half of a
  pair, \<open>fetchImage\<close> returns \<open>savePath\<close>; it leaves the files as they were unless the page
  was fetched, an entry was selected, the download and the resize succeeded, and then the
  only change is the PNG stored at \<open>savePath\<close>. (A query with a lone surrogate makes
  \<open>encodeURIComponent\<close> throw at line 255, before the \<open>try\<close>.)
\<close>

theorem fetchImage_total_well_formed:
  assumes "well_formed query"
  shows "fst (fetchImage env query savePath w) = Inr savePath
         \<and> (\<forall>q. encodeURIComponent query = Inr q \<longrightarrow>
              (files (snd (fetchImage env query savePath w)) = files w
               \<or> (\<exists>es a u data png. axios_get_page env (search_url @ q) = Inr es
                     \<and> select_image es = Some (a, u) \<and> axios_get_image env u = Inr data
                     \<and> sharp_png env data = Inr png
                     \<and> files (snd (fetchImage env query savePath w)) = (files w)(savePath \<mapsto> png))))
         \<and> dirs (snd (fetchImage env query savePath w)) = dirs w"
proof -
  obtain q where q: "encodeURIComponent query = Inr q"
    using assms encode_well_formed by blast
  show ?thesis
    using q by (auto simp: fetchImage_def Let_def split: sum.splits option.splits prod.splits)
qed

theorem fetchImage_total_well_formed_witness:
  "well_formed news_query
   \<and> fst (fetchImage env_example news_query ''/out/img1.png'' world0) = Inr ''/out/img1.png''
   \<and> dirs (snd (fetchImage env_example news_query ''/out/img1.png'' world0)) = dirs world0"
proof -
  have w: "well_formed news_query"
    by (simp add: news_query_def is_lead_def is_trail_def)
  show ?thesis
    using fetchImage_total_well_formed [OF w, of env_example "''/out/img1.png''" world0] w
    by blast
qed

theorem fetchImage_lone_surrogate_counterexample:
  "fst (fetchImage env_example [0xD800] ''/out/img1.png'' world0) = Inl URIError"
  by (simp add: fetchImage_def is_lead_def is_trail_def)

section \<open>Properties of generateReel\<close>

lemma run_ffmpeg_events: "events (snd (run_ffmpeg env cmd w)) = events w @ [RunFfmpeg cmd]"
  by (simp add: run_ffmpeg_def Let_def split: sum.splits)

lemma reel_command_ok:
  assumes "ffprobe env (files w) audioFile = Inr md"
    and "getVideoDimensions env videoFile w = Inr dims"
  shows "\<exists>cmd. reel_command env imageFile videoFile audioFile titleText descText outputFile w = Inr cmd
     \<and> cmd_inputs cmd = [videoFile, imageFile, audioFile]
     \<and> cmd_options cmd = [Opt ''-map [vid2]'', Opt ''-map 2:a?'', Opt ''-c:v libx264'',
                             Opt ''-crf 18'', Opt ''-preset medium'', Opt ''-c:a aac'',
                             Trim (Math_round (ToNumber env
                                     (or_default (format_duration md) (JsNumber (Fin 10)))))]
     \<and> generateReel env imageFile videoFile audioFile titleText descText outputFile w
         = run_ffmpeg env cmd w"
  using assms by (simp add: reel_command_def generateReel_def Let_def)

lemma reel_probe_fail:
  "ffprobe env (files w) audioFile = Inl err \<Longrightarrow>
   generateReel env imageFile videoFile audioFile titleText descText outputFile w = (Inl err, w)"
  by (simp add: reel_command_def generateReel_def)

lemma reel_dimensions_fail:
  "ffprobe env (files w) audioFile = Inr md \<Longrightarrow> getVideoDimensions env videoFile w = Inl err \<Longrightarrow>
   generateReel env imageFile videoFile audioFile titleText descText outputFile w = (Inl err, w)"
  by (simp add: reel_command_def generateReel_def Let_def)

lemma trim_number:
  "D \<noteq> 0 \<Longrightarrow>
   Math_round (ToNumber env (or_default (Some (JsNumber (Fin D))) (JsNumber (Fin 10))))
     = Fin (of_int (round D))"
  by simp

lemma trim_default:
  "d = None \<or> d = Some (JsNumber (Fin 0)) \<or> d = Some (JsNumber NaN) \<Longrightarrow>
   Math_round (ToNumber env (or_default d (JsNumber (Fin 10)))) = Fin 10"
  by auto

text \<open>
  A duration that ffprobe prints as \<open>N/A\<close> arrives as a string that is not empty: it is
  truthy, the default of line 381 is not taken, and \<open>Math.round\<close> of it is \<open>NaN\<close>.
\<close>

lemma Number_of_string_unknown: "Number_of_string env ''N/A'' = NaN"
  by (simp add: Number_of_string_def trim_def is_space_def is_numeric_literal_def strip_sign_def
      is_decimal_literal_def is_mantissa_def is_digits_def is_digit_def is_radix_literal_def)

lemma trim_unknown:
  "Math_round (ToNumber env (or_default (Some (JsString ''N/A'')) (JsNumber (Fin 10)))) = NaN"
  by (simp add: Number_of_string_unknown)

text \<open>
  Claim C6, as the code has it. When the probe of the narration succeeds and the probe of
  the base clip finds a stream with a width and a height, the command that is run ends
  with the option \<open>-t\<close>, whose value depends on the narration's metadata alone:
  \<open>Math.round(D)\<close> for a duration that is a number \<open>D\<close> other than zero, and 10 when the
  duration is absent or is the number 0 or \<open>NaN\<close>. When the probe of the narration fails,
  or the base clip cannot be probed or has no sized stream, \<open>generateReel\<close> rejects with
  that error and runs nothing.
\<close>

theorem generateReel_trim:
  "(\<forall>md dims. ffprobe env (files w) audioFile = Inr md
        \<and> getVideoDimensions env videoFile w = Inr dims \<longrightarrow>
      (\<exists>cmd. reel_command env imageFile videoFile audioFile titleText descText outputFile w = Inr cmd
         \<and> events (snd (generateReel env imageFile videoFile audioFile titleText descText outputFile w))
             = events w @ [RunFfmpeg cmd]
         \<and> (\<forall>D. format_duration md = Some (JsNumber (Fin D)) \<and> D \<noteq> 0 \<longrightarrow>
                cmd_options cmd = [Opt ''-map [vid2]'', Opt ''-map 2:a?'', Opt ''-c:v libx264'',
                                   Opt ''-crf 18'', Opt ''-preset medium'', Opt ''-c:a aac'',
                                   Trim (Fin (of_int (round D)))])
         \<and> (format_duration md = None \<or> format_duration md = Some (JsNumber (Fin 0))
              \<or> format_duration md = Some (JsNumber NaN) \<longrightarrow>
                cmd_options cmd = [Opt ''-map [vid2]'', Opt ''-map 2:a?'', Opt ''-c:v libx264'',
                                   Opt ''-crf 18'', Opt ''-preset medium'', Opt ''-c:a aac'',
                                   Trim (Fin 10)])))
   \<and> (\<forall>err. ffprobe env (files w) audioFile = Inl err \<longrightarrow>
        generateReel env imageFile videoFile audioFile titleText descText outputFile w = (Inl err, w))
   \<and> (\<forall>md err. ffprobe env (files w) audioFile = Inr md
        \<and> getVideoDimensions env videoFile w = Inl err \<longrightarrow>
        generateReel env imageFile videoFile audioFile titleText descText outputFile w = (Inl err, w))"
proof (intro conjI allI impI)
  fix md dims
  assume h: "ffprobe env (files w) audioFile = Inr md
        \<and> getVideoDimensions env videoFile w = Inr dims"
  then obtain cmd where c:
    "reel_command env imageFile videoFile audioFile titleText descText outputFile w = Inr cmd"
    "cmd_options cmd = [Opt ''-map [vid2]'', Opt ''-map 2:a?'', Opt ''-c:v libx264'',
                             Opt ''-crf 18'', Opt ''-preset medium'', Opt ''-c:a aac'',
                             Trim (Math_round (ToNumber env
                                     (or_default (format_duration md) (JsNumber (Fin 10)))))]"
    "generateReel env imageFile videoFile audioFile titleText descText outputFile w
         = run_ffmpeg env cmd w"
    using reel_command_ok [of env w audioFile md videoFile dims imageFile titleText descText outputFile]
    by blast
  have 1: "\<forall>D. format_duration md = Some (JsNumber (Fin D)) \<and> D \<noteq> 0 \<longrightarrow>
                cmd_options cmd = [Opt ''-map [vid2]'', Opt ''-map 2:a?'', Opt ''-c:v libx264'',
                                   Opt ''-crf 18'', Opt ''-preset medium'', Opt ''-c:a aac'',
                                   Trim (Fin (of_int (round D)))]"
    using c(2) trim_number [of _ env] by auto
  have 2: "format_duration md = None \<or> format_duration md = Some (JsNumber (Fin 0))
              \<or> format_duration md = Some (JsNumber NaN) \<longrightarrow>
                cmd_options cmd = [Opt ''-map [vid2]'', Opt ''-map 2:a?'', Opt ''-c:v libx264'',
                                   Opt ''-crf 18'', Opt ''-preset medium'', Opt ''-c:a aac'',
                                   Trim (Fin 10)]"
    using c(2) trim_default [of "format_duration md" env] by auto
  have 3: "events (snd (generateReel env imageFile videoFile audioFile titleText descText outputFile w))
             = events w @ [RunFfmpeg cmd]"
    using c(3) by (simp add: run_ffmpeg_events)
  show "\<exists>cmd. reel_command env imageFile videoFile audioFile titleText descText outputFile w = Inr cmd
         \<and> events (snd (generateReel env imageFile videoFile audioFile titleText descText outputFile w))
             = events w @ [RunFfmpeg cmd]
         \<and> (\<forall>D. format_duration md = Some (JsNumber (Fin D)) \<and> D \<noteq> 0 \<longrightarrow>
                cmd_options cmd = [Opt ''-map [vid2]'', Opt ''-map 2:a?'', Opt ''-c:v libx264'',
                                   Opt ''-crf 18'', Opt ''-preset medium'', Opt ''-c:a aac'',
                                   Trim (Fin (of_int (round D)))])
         \<and> (format_duration md = None \<or> format_duration md = Some (JsNumber (Fin 0))
              \<or> format_duration md = Some (JsNumber NaN) \<longrightarrow>
                cmd_options cmd = [Opt ''-map [vid2]'', Opt ''-map 2:a?'', Opt ''-c:v libx264'',
                                   Opt ''-crf 18'', Opt ''-preset medium'', Opt ''-c:a aac'',
                                   Trim (Fin 10)])"
    using c(1) 1 2 3 by blast
next
  fix err assume "ffprobe env (files w) audioFile = Inl err"
  then show "generateReel env imageFile videoFile audioFile titleText descText outputFile w = (Inl err, w)"
    by (rule reel_probe_fail)
next
  fix md err
  assume "ffprobe env (files w) audioFile = Inr md
        \<and> getVideoDimensions env videoFile w = Inl err"
  then show "generateReel env imageFile videoFile audioFile titleText descText outputFile w = (Inl err, w)"
    using reel_dimensions_fail by blast
qed

lemma dims_ex: "getVideoDimensions env_example ''/out/output_1_english.mp4'' world0
   = Inr \<lparr>st_width = Some 1080, st_height = Some 1920\<rparr>"
  by (simp add: getVideoDimensions_def env_example_def)

lemma round_ex: "round (7 / 2 :: rat) = 4"
  by (simp add: round_def)

theorem generateReel_trim_witness:
  "ffprobe env_example (files world0) ''/out/audio_1_english.mp3''
     = Inr \<lparr>format_duration = Some (JsNumber (Fin (7 / 2))),
            streams = [\<lparr>st_width = Some 1080, st_height = Some 1920\<rparr>]\<rparr>
   \<and> getVideoDimensions env_example ''/out/output_1_english.mp4'' world0
     = Inr \<lparr>st_width = Some 1080, st_height = Some 1920\<rparr>
   \<and> (\<exists>cmd. reel_command env_example ''/out/img1.png'' ''/out/output_1_english.mp4''
               ''/out/audio_1_english.mp3'' [] [] ''/out/reel_english1.mp4'' world0 = Inr cmd
          \<and> last (cmd_options cmd) = Trim (Fin 4))
   \<and> getVideoDimensions env_example ''/out/audio_only.mp4'' world0
     = Inl (TypeError ''Cannot read properties of undefined'')
   \<and> generateReel env_example ''/out/img1.png'' ''/out/audio_only.mp4''
        ''/out/audio_1_english.mp3'' [] [] ''/out/reel_english1.mp4'' world0
     = (Inl (TypeError ''Cannot read properties of undefined''), world0)"
proof -
  let ?md = "\<lparr>format_duration = Some (JsNumber (Fin (7 / 2))),
              streams = [\<lparr>st_width = Some 1080, st_height = Some 1920\<rparr>]\<rparr>"
  have p: "ffprobe env_example (files world0) ''/out/audio_1_english.mp3'' = Inr ?md"
    by (simp add: env_example_def)
  have d: "(7 / 2 :: rat) \<noteq> 0" by simp
  have n: "getVideoDimensions env_example ''/out/audio_only.mp4'' world0
     = Inl (TypeError ''Cannot read properties of undefined'')"
    by (simp add: getVideoDimensions_def env_example_def)
  note t = generateReel_trim [of env_example world0 "''/out/audio_1_english.mp3''"
             "''/out/output_1_english.mp4''" "''/out/img1.png''" "[]" "[]"
             "''/out/reel_english1.mp4''"]
  note u = generateReel_trim [of env_example world0 "''/out/audio_1_english.mp3''"
             "''/out/audio_only.mp4''" "''/out/img1.png''" "[]" "[]"
             "''/out/reel_english1.mp4''"]
  from t p dims_ex obtain cmd where c:
    "reel_command env_example ''/out/img1.png'' ''/out/output_1_english.mp4''
       ''/out/audio_1_english.mp3'' [] [] ''/out/reel_english1.mp4'' world0 = Inr cmd"
    "\<forall>D. format_duration ?md = Some (JsNumber (Fin D)) \<and> D \<noteq> 0 \<longrightarrow>
       cmd_options cmd = [Opt ''-map [vid2]'', Opt ''-map 2:a?'', Opt ''-c:v libx264'',
                          Opt ''-crf 18'', Opt ''-preset medium'', Opt ''-c:a aac'',
                          Trim (Fin (of_int (round D)))]"
    by blast
  have "cmd_options cmd = [Opt ''-map [vid2]'', Opt ''-map 2:a?'', Opt ''-c:v libx264'',
                          Opt ''-crf 18'', Opt ''-preset medium'', Opt ''-c:a aac'',
                          Trim (Fin (of_int (round (7 / 2 :: rat))))]"
    using c(2) d by simp
  then have l: "last (cmd_options cmd) = Trim (Fin 4)"
    by (simp add: round_ex)
  have r: "generateReel env_example ''/out/img1.png'' ''/out/audio_only.mp4''
        ''/out/audio_1_english.mp3'' [] [] ''/out/reel_english1.mp4'' world0
     = (Inl (TypeError ''Cannot read properties of undefined''), world0)"
    using u p n by blast
  show ?thesis using p dims_ex c(1) l n r by blast
qed

theorem generateReel_trim_counterexample:
  "map_sum id cmd_options
     (reel_command env_example ''/out/img1.png'' ''/out/output_1_english.mp4''
        ''/out/silent.mp3'' [] [] ''/out/reel_english1.mp4'' world0)
     = Inr [Opt ''-map [vid2]'', Opt ''-map 2:a?'', Opt ''-c:v libx264'', Opt ''-crf 18'',
            Opt ''-preset medium'', Opt ''-c:a aac'', Trim (Fin 10)]
   \<and> ffprobe env_example (files world0) ''/out/silent.mp3''
       = Inr \<lparr>format_duration = Some (JsNumber (Fin 0)), streams = []\<rparr>
   \<and> Math_round (Fin 0) = Fin 0
   \<and> generateReel env_example ''/out/img1.png'' ''/out/output_1_english.mp4''
        ''/out/broken.mp3'' [] [] ''/out/reel_english1.mp4'' world0
       = (Inl (ProbeError ''Invalid data''), world0)"
  by (simp add: reel_command_def generateReel_def getVideoDimensions_def env_example_def
      existsSync_def world0_def)

text \<open>
  The narration of unknown duration, evaluated: the option is \<open>-t NaN\<close>, not the default.
\<close>

lemma reel_command_unknown_duration:
  "map_sum id cmd_options
     (reel_command env_example ''/out/img1.png'' ''/out/output_1_english.mp4''
        ''/out/stream.mp3'' [] [] ''/out/reel_english1.mp4'' world0)
     = Inr [Opt ''-map [vid2]'', Opt ''-map 2:a?'', Opt ''-c:v libx264'', Opt ''-crf 18'',
            Opt ''-preset medium'', Opt ''-c:a aac'', Trim NaN]"
  by (simp add: reel_command_def getVideoDimensions_def env_example_def existsSync_def world0_def
      Number_of_string_unknown)

section \<open>Properties of generateTTS\<close>

lemma fetchTTS_fail:
  assumes "fst (fetchTTS env content p w) = Inl err"
  shows "files (snd (fetchTTS env content p w)) = files w
       \<and> dirs (snd (fetchTTS env content p w)) = dirs w
       \<and> (events (snd (fetchTTS env content p w)) = events w
          \<or> (\<exists>req. events (snd (fetchTTS env content p w)) = events w @ [GetAudio req]))"
  using assms by (auto simp: fetchTTS_def Let_def split: sum.splits)

lemma process_item_fail:
  assumes "fst (fetchTTS env (description item) (audio_path outputDir item) w) = Inl err"
  shows "process_item env outputDir (w, audioFiles) item
         = (snd (fetchTTS env (description item) (audio_path outputDir item) w), audioFiles)"
  using assms by (cases "fetchTTS env (description item) (audio_path outputDir item) w")
    (auto simp: process_item_def)

lemma tts_down:
  "fetchTTS env_tts_down (description item1) (audio_path ''/out'' item1) world0
   = (Inl (HttpError ''timeout of 60000ms exceeded''),
      world0\<lparr>events := [GetAudio \<lparr>tts_input = ''News'', tts_voice = ''nova'', tts_timeout = 60000\<rparr>]\<rparr>)"
  by (simp add: fetchTTS_def item1_def enc_news env_tts_down_def env_example_def voice_def
      world0_def Let_def)

text \<open>
  Claim C9. \<open>fetchTTS\<close> returns the error of the request (sent with the timeout of 60000
  ms) to its caller. When it fails for an item, the iteration ends there: the list of
  audio files and the files on disk are as before, nothing is requested or run beyond the
  synthesis request itself, and the loop goes on with the remaining items from that state.
\<close>

theorem fetchTTS_failure_skips_item:
  "(\<forall>input err. encodeURIComponent content = Inr input
        \<and> axios_get_audio env \<lparr>tts_input = input, tts_voice = voice, tts_timeout = 60000\<rparr> = Inl err
      \<longrightarrow> fst (fetchTTS env content folderPath w) = Inl err)
   \<and> (\<forall>err. fst (fetchTTS env (description item) (audio_path outputDir item) w) = Inl err \<longrightarrow>
        process_item env outputDir (w, audioFiles) item
          = (snd (fetchTTS env (description item) (audio_path outputDir item) w), audioFiles)
        \<and> files (fst (process_item env outputDir (w, audioFiles) item)) = files w
        \<and> (events (fst (process_item env outputDir (w, audioFiles) item)) = events w
           \<or> (\<exists>req. events (fst (process_item env outputDir (w, audioFiles) item))
                      = events w @ [GetAudio req]))
        \<and> foldl (process_item env outputDir) (w, audioFiles) (item # rest)
          = foldl (process_item env outputDir)
              (snd (fetchTTS env (description item) (audio_path outputDir item) w), audioFiles) rest
        \<and> generateTTS env (item # rest) outputDir w
          = foldl (process_item env outputDir)
              (snd (fetchTTS env (description item) (audio_path outputDir item) w), []) rest)"
proof (intro conjI allI impI)
  fix input err
  assume "encodeURIComponent content = Inr input
        \<and> axios_get_audio env \<lparr>tts_input = input, tts_voice = voice, tts_timeout = 60000\<rparr> = Inl err"
  then show "fst (fetchTTS env content folderPath w) = Inl err"
    by (simp add: fetchTTS_def Let_def)
next
  fix err
  assume h: "fst (fetchTTS env (description item) (audio_path outputDir item) w) = Inl err"
  show p: "process_item env outputDir (w, audioFiles) item
          = (snd (fetchTTS env (description item) (audio_path outputDir item) w), audioFiles)"
    using h by (rule process_item_fail)
  show "files (fst (process_item env outputDir (w, audioFiles) item)) = files w"
    using fetchTTS_fail [OF h] by (simp add: p)
  show "events (fst (process_item env outputDir (w, audioFiles) item)) = events w
           \<or> (\<exists>req. events (fst (process_item env outputDir (w, audioFiles) item))
                      = events w @ [GetAudio req])"
    using fetchTTS_fail [OF h] by (simp add: p)
  show "foldl (process_item env outputDir) (w, audioFiles) (item # rest)
          = foldl (process_item env outputDir)
              (snd (fetchTTS env (description item) (audio_path outputDir item) w), audioFiles) rest"
    by (simp add: p)
  show "generateTTS env (item # rest) outputDir w
          = foldl (process_item env outputDir)
              (snd (fetchTTS env (description item) (audio_path outputDir item) w), []) rest"
    using h by (simp add: generateTTS_def process_item_fail)
qed

theorem fetchTTS_failure_skips_item_witness:
  "fst (fetchTTS env_tts_down (description item1) (audio_path ''/out'' item1) world0)
     = Inl (HttpError ''timeout of 60000ms exceeded'')
   \<and> process_item env_tts_down ''/out'' (world0, []) item1
     = (world0\<lparr>events := [GetAudio \<lparr>tts_input = ''News'', tts_voice = ''nova'',
                                       tts_timeout = 60000\<rparr>]\<rparr>, [])"
proof -
  have f: "fst (fetchTTS env_tts_down (description item1) (audio_path ''/out'' item1) world0)
             = Inl (HttpError ''timeout of 60000ms exceeded'')"
    by (simp add: tts_down)
  have "process_item env_tts_down ''/out'' (world0, []) item1
          = (snd (fetchTTS env_tts_down (description item1) (audio_path ''/out'' item1) world0), [])"
    using fetchTTS_failure_skips_item
            [of "description item1" env_tts_down "audio_path ''/out'' item1" world0 item1
                "''/out''" "[]" "[]"] f
    by blast
  then show ?thesis using f by (simp add: tts_down)
qed

lemma prepare_image_fetches: "prepare_image env query imgPath w = snd (fetchImage env query imgPath w)"
  by (simp add: prepare_image_def fs_access_def)

lemma img_path_ex: "img_path ''/out'' item1 = ''/out/img1.png''"
  by (simp add: img_path_def item1_def path_join_def char_eval)

text \<open>
  Claim C3 does not hold of the code. \<open>fs.access\<close> is called without a callback, so it
  throws whether or not the image is there, and the \<open>catch\<close> fetches: the image step
  is the fetch, in every state. With \<open>img1.png\<close> already in the output directory (as it
  is when the second language of an item is processed), the search page and the image
  are requested again and the file is replaced.
\<close>

theorem prepare_image_refetches_cached:
  "prepare_image env query imgPath w = snd (fetchImage env query imgPath w)
   \<and> files world_out (img_path ''/out'' item1) = Some ''old''
   \<and> events (prepare_image env_example (title item1) (img_path ''/out'' item1) world_out)
       = [GetPage (search_url @ ''News''), GetImage ''https://tse.example/a.jpg'']
   \<and> files (prepare_image env_example (title item1) (img_path ''/out'' item1) world_out)
        (img_path ''/out'' item1) = Some ''png''"
proof -
  have t: "title item1 = news_query" by (simp add: item1_def)
  have s: "select_image [li_youtube, li_photo] = Some (''photo'', ''https://tse.example/a.jpg'')"
    by (simp add: select_image_find eligible_ex chosen_photo)
  have "files world_out (img_path ''/out'' item1) = Some ''old''
   \<and> events (prepare_image env_example (title item1) (img_path ''/out'' item1) world_out)
       = [GetPage (search_url @ ''News''), GetImage ''https://tse.example/a.jpg'']
   \<and> files (prepare_image env_example (title item1) (img_path ''/out'' item1) world_out)
        (img_path ''/out'' item1) = Some ''png''"
    unfolding prepare_image_fetches img_path_ex t
    by (simp add: fetchImage_def enc_news page_ex s world_out_def Let_def env_example_def)
  then show ?thesis using prepare_image_fetches by blast
qed

section \<open>Properties of getAllVideos and mergeVideos\<close>

lemma getAllVideos_dir:
  assumes "dirs w folderPath = Some names"
  shows "getAllVideos w folderPath lang
     = Inr (map (path_join folderPath)
              (sort_key (reel_number lang) (filter (\<lambda>file. reel_match lang file \<noteq> None) names)))"
  using assms by (simp add: getAllVideos_def existsSync_def Let_def)

lemma match_ex:
  "reel_match ''english'' ''reel_english10.mp4'' = Some ''10''"
  "reel_match ''english'' ''reel_english2.mp4'' = Some ''2''"
  "reel_match ''english'' ''reel_hindi1.mp4'' = None"
  "reel_match ''english'' ''img1.png'' = None"
  by (simp_all add: reel_match_def starts_with_ci_def lower_ascii_def is_digit_def Let_def)

lemma number_ex:
  "reel_number ''english'' ''reel_english10.mp4'' = 10"
  "reel_number ''english'' ''reel_english2.mp4'' = 2"
  "reel_number ''english'' ''reel_hindi1.mp4'' = 0"
  "reel_number ''english'' ''img1.png'' = 0"
  by (simp_all add: reel_number_def match_ex parseInt10_def)

lemma merge_ex:
  "merge_list env_example world_out ''/out'' ''english''
   = Inr [''/app/assests/REELS/Reel_1.mp4'', ''/out/reel_english2.mp4'',
          ''/out/reel_english10.mp4'', ''/app/assests/REELS/Reel_5.mp4'']"
  by (simp add: merge_list_def getAllVideos_def existsSync_def world_out_def match_ex number_ex
      intro_clip_def outro_clip_def path_join_def env_example_def)

text \<open>
  Claim C7. For an output directory whose matching files have suffixes below \<open>2 ^ 53\<close>,
  \<open>getAllVideos\<close> returns exactly the files that match \<open>reel_{language}{n}.mp4\<close>, in
  ascending order of \<open>n\<close>; the list to merge is the intro clip, then these clips in that
  order, then the outro clip, without the paths that do not exist.
\<close>

theorem getAllVideos_merge_order:
  assumes "dirs w outputDir = Some names"
    and "\<forall>f\<in>set names. reel_number lang f < 2 ^ 53"
  shows "\<exists>clips. getAllVideos w outputDir lang = Inr (map (path_join outputDir) clips)
     \<and> set clips = {f \<in> set names. reel_match lang f \<noteq> None}
     \<and> length clips = length (filter (\<lambda>f. reel_match lang f \<noteq> None) names)
     \<and> sorted (map (reel_number lang) clips)
     \<and> merge_list env w outputDir lang
         = Inr (filter (existsSync w)
                  ([intro_clip env] @ map (path_join outputDir) clips @ [outro_clip env]))
     \<and> (existsSync w (intro_clip env) \<and> existsSync w (outro_clip env)
          \<and> (\<forall>c\<in>set clips. existsSync w (path_join outputDir c)) \<longrightarrow>
        merge_list env w outputDir lang
         = Inr ([intro_clip env] @ map (path_join outputDir) clips @ [outro_clip env]))"
proof -
  let ?clips = "sort_key (reel_number lang) (filter (\<lambda>f. reel_match lang f \<noteq> None) names)"
  have g: "getAllVideos w outputDir lang = Inr (map (path_join outputDir) ?clips)"
    using assms(1) by (rule getAllVideos_dir)
  have s: "set ?clips = {f \<in> set names. reel_match lang f \<noteq> None}" by auto
  have l: "length ?clips = length (filter (\<lambda>f. reel_match lang f \<noteq> None) names)" by simp
  have o: "sorted (map (reel_number lang) ?clips)" by (rule sorted_sort_key)
  have m: "merge_list env w outputDir lang
         = Inr (filter (existsSync w)
                  ([intro_clip env] @ map (path_join outputDir) ?clips @ [outro_clip env]))"
    by (simp add: merge_list_def g)
  have a: "existsSync w (intro_clip env) \<and> existsSync w (outro_clip env)
          \<and> (\<forall>c\<in>set ?clips. existsSync w (path_join outputDir c)) \<longrightarrow>
        merge_list env w outputDir lang
         = Inr ([intro_clip env] @ map (path_join outputDir) ?clips @ [outro_clip env])"
    unfolding m by (auto simp: filter_id_conv)
  show ?thesis using g s l o m a by blast
qed

theorem getAllVideos_merge_order_witness:
  "dirs world_out ''/out''
     = Some [''reel_english10.mp4'', ''reel_hindi1.mp4'', ''img1.png'', ''reel_english2.mp4'']
   \<and> reel_number ''english'' ''reel_english10.mp4'' < 2 ^ 53
   \<and> reel_number ''english'' ''reel_hindi1.mp4'' < 2 ^ 53
   \<and> reel_number ''english'' ''img1.png'' < 2 ^ 53
   \<and> reel_number ''english'' ''reel_english2.mp4'' < 2 ^ 53
   \<and> (\<exists>clips. getAllVideos world_out ''/out'' ''english'' = Inr (map (path_join ''/out'') clips)
          \<and> sorted (map (reel_number ''english'') clips))
   \<and> merge_list env_example world_out ''/out'' ''english''
       = Inr [''/app/assests/REELS/Reel_1.mp4'', ''/out/reel_english2.mp4'',
              ''/out/reel_english10.mp4'', ''/app/assests/REELS/Reel_5.mp4'']"
proof -
  have d: "dirs world_out ''/out''
     = Some [''reel_english10.mp4'', ''reel_hindi1.mp4'', ''img1.png'', ''reel_english2.mp4'']"
    by (simp add: world_out_def)
  have b: "\<forall>f\<in>set [''reel_english10.mp4'', ''reel_hindi1.mp4'', ''img1.png'', ''reel_english2.mp4''].
         reel_number ''english'' f < 2 ^ 53"
    by (simp add: number_ex)
  have "\<exists>clips. getAllVideos world_out ''/out'' ''english'' = Inr (map (path_join ''/out'') clips)
          \<and> sorted (map (reel_number ''english'') clips)"
    using getAllVideos_merge_order [OF d b, of env_example] by blast
  then show ?thesis using d merge_ex by (simp add: number_ex)
qed

lemma validateVideos_results:
  "validateVideos env w fs = Inr rs \<Longrightarrow>
   map sc_file rs = fs \<and> (\<forall>i<length fs. checkStreams env w (fs ! i) = Inr (rs ! i))"
proof (induction fs arbitrary: rs)
  case Nil
  then show ?case by simp
next
  case (Cons f fs)
  from Cons.prems obtain r rs' where r: "checkStreams env w f = Inr r"
    and rs': "validateVideos env w fs = Inr rs'" and rs: "rs = r # rs'"
    by (auto split: sum.splits)
  have f: "sc_file r = f" using r by (auto simp: checkStreams_def split: sum.splits)
  have ih: "map sc_file rs' = fs \<and> (\<forall>i<length fs. checkStreams env w (fs ! i) = Inr (rs' ! i))"
    using Cons.IH [OF rs'] .
  show ?case
  proof (intro conjI allI impI)
    show "map sc_file rs = f # fs" using rs f ih by simp
  next
    fix i assume "i < length (f # fs)"
    then show "checkStreams env w ((f # fs) ! i) = Inr (rs ! i)"
      using rs r ih by (cases i) auto
  qed
qed

text \<open>
  Claim C8. When every probe answers and the list is not empty, each clip has been probed,
  the clips without an audio stream appear in one warning and nowhere else, and the
  command that is run takes the whole list as its inputs, with a \<open>concat\<close> filter whose
  \<open>n\<close> is the length of the list.
\<close>

theorem mergeVideos_keeps_all:
  assumes "validateVideos env w videoFiles = Inr results" and "videoFiles \<noteq> []"
  shows "map sc_file results = videoFiles
     \<and> (\<forall>i<length videoFiles. checkStreams env w (videoFiles ! i) = Inr (results ! i))
     \<and> cmd_inputs (merge_command videoFiles outputFile) = videoFiles
     \<and> cmd_filter (merge_command videoFiles outputFile) = Concat (length videoFiles) 1 1
     \<and> events (snd (mergeVideos env videoFiles outputFile w))
         = events w
           @ (if filter (\<lambda>r. \<not> hasAudio r) results = [] then []
              else [Warn (map sc_file (filter (\<lambda>r. \<not> hasAudio r) results))])
           @ [RunFfmpeg (merge_command videoFiles outputFile)]"
proof -
  have 1: "map sc_file results = videoFiles
     \<and> (\<forall>i<length videoFiles. checkStreams env w (videoFiles ! i) = Inr (results ! i))"
    using assms(1) by (rule validateVideos_results)
  have 2: "cmd_inputs (merge_command videoFiles outputFile) = videoFiles
     \<and> cmd_filter (merge_command videoFiles outputFile) = Concat (length videoFiles) 1 1"
    by (simp add: merge_command_def)
  have 3: "events (snd (mergeVideos env videoFiles outputFile w))
         = events w
           @ (if filter (\<lambda>r. \<not> hasAudio r) results = [] then []
              else [Warn (map sc_file (filter (\<lambda>r. \<not> hasAudio r) results))])
           @ [RunFfmpeg (merge_command videoFiles outputFile)]"
    using assms by (simp add: mergeVideos_def Let_def run_ffmpeg_events)
  show ?thesis using 1 2 3 by blast
qed

lemma validate_ex:
  "validateVideos env_example world0 [''/out/reel_english1.mp4'', ''/out/reel_english2.mp4'']
   = Inr [\<lparr>sc_file = ''/out/reel_english1.mp4'', hasVideo = True, hasAudio = True\<rparr>,
          \<lparr>sc_file = ''/out/reel_english2.mp4'', hasVideo = True, hasAudio = False\<rparr>]"
  by (simp add: checkStreams_def env_example_def)

theorem mergeVideos_keeps_all_witness:
  "validateVideos env_example world0 [''/out/reel_english1.mp4'', ''/out/reel_english2.mp4'']
     = Inr [\<lparr>sc_file = ''/out/reel_english1.mp4'', hasVideo = True, hasAudio = True\<rparr>,
            \<lparr>sc_file = ''/out/reel_english2.mp4'', hasVideo = True, hasAudio = False\<rparr>]
   \<and> [''/out/reel_english1.mp4'', ''/out/reel_english2.mp4''] \<noteq> []
   \<and> cmd_filter (merge_command [''/out/reel_english1.mp4'', ''/out/reel_english2.mp4'']
                   ''/out/final_english_video.mp4'') = Concat 2 1 1
   \<and> events (snd (mergeVideos env_example [''/out/reel_english1.mp4'', ''/out/reel_english2.mp4'']
                     ''/out/final_english_video.mp4'' world0))
       = [Warn [''/out/reel_english2.mp4''],
          RunFfmpeg (merge_command [''/out/reel_english1.mp4'', ''/out/reel_english2.mp4'']
                       ''/out/final_english_video.mp4'')]"
proof -
  have n: "[''/out/reel_english1.mp4'', ''/out/reel_english2.mp4''] \<noteq> []" by simp
  show ?thesis
    using mergeVideos_keeps_all [OF validate_ex n, of "''/out/final_english_video.mp4''"]
      validate_ex
    by (simp add: world0_def)
qed

end
